theory Spec2Isabelle
  imports Main "HOL-Library.Word"
begin

unbundle bit_operations_syntax

section \<open>slush.c: a serial line shell\<close>

text \<open>
  A shallow embedding of \<^verbatim>\<open>src/slush.c\<close>. Bytes are \<^typ>\<open>char\<close> (eight bits), C strings
  and arrays are \<^typ>\<open>string\<close>, machine integers that are compared bitwise are words, and
  the calls into the operating system are explicit: the console is a stream of bytes that
  \<^verbatim>\<open>fgets\<close> consumes, every turn of the \<^verbatim>\<open>poll\<close> loop takes one event saying what
  \<^verbatim>\<open>poll\<close>, \<^verbatim>\<open>read\<close> and \<^verbatim>\<open>clock_gettime\<close> deliver, and everything the program
  prints, writes or sets is collected in a record of the world.
\<close>

subsection \<open>Constants\<close>

definition DEVICE :: string where
  "DEVICE = ''/dev/ttyS0''"

definition BPS :: int where
  "BPS = 115200"

definition BUFLEN :: nat where
  "BUFLEN = 1024"

definition NUL :: char where
  "NUL = CHR 0x00"

definition CR :: char where
  "CR = CHR 0x0D"

definition NL :: char where
  "NL = CHR 0x0A"

type_synonym tcflag_t = "32 word"
type_synonym uint64_t = "64 word"
type_synonym size_t = "64 word"

text \<open>The values of \<^verbatim>\<open><termios.h>\<close> and \<^verbatim>\<open><poll.h>\<close> on Linux (octal there).\<close>

definition IGNPAR :: tcflag_t where "IGNPAR = 4"
definition ICRNL :: tcflag_t where "ICRNL = 256"
definition CS8 :: tcflag_t where "CS8 = 48"
definition CREAD :: tcflag_t where "CREAD = 128"
definition CLOCAL :: tcflag_t where "CLOCAL = 2048"
definition CRTSCTS :: tcflag_t where "CRTSCTS = 2147483648"
definition ICANON :: tcflag_t where "ICANON = 2"

definition B1200 :: tcflag_t where "B1200 = 9"
definition B1800 :: tcflag_t where "B1800 = 10"
definition B2400 :: tcflag_t where "B2400 = 11"
definition B4800 :: tcflag_t where "B4800 = 12"
definition B9600 :: tcflag_t where "B9600 = 13"
definition B19200 :: tcflag_t where "B19200 = 14"
definition B38400 :: tcflag_t where "B38400 = 15"
definition B57600 :: tcflag_t where "B57600 = 4097"
definition B115200 :: tcflag_t where "B115200 = 4098"

definition POLLIN :: "16 word" where "POLLIN = 1"
definition POLLPRI :: "16 word" where "POLLPRI = 2"
definition POLLERR :: "16 word" where "POLLERR = 8"
definition POLLHUP :: "16 word" where "POLLHUP = 16"

subsection \<open>Data\<close>

record termios =
  c_iflag :: tcflag_t
  c_oflag :: tcflag_t
  c_cflag :: tcflag_t
  c_lflag :: tcflag_t
  c_cc_VTIME :: "8 word"
  c_cc_VMIN :: "8 word"

record timespec =
  tv_sec :: uint64_t
  tv_nsec :: uint64_t

text \<open>
  The variables that the option loop of \<^verbatim>\<open>main\<close> sets: the three file-scope flags and the
  locals \<^verbatim>\<open>bps\<close>, \<^verbatim>\<open>icrnl\<close>, \<^verbatim>\<open>nlmap\<close>, \<^verbatim>\<open>hwfc\<close> and \<^verbatim>\<open>device\<close>. The pointer
  \<^verbatim>\<open>device\<close> is declared without an initialiser, so it is \<open>None\<close> until \<^verbatim>\<open>-p\<close> assigns it.
\<close>

record config =
  annotate :: int
  debug :: int
  trace :: int
  bps :: int
  icrnl :: int
  nlmap :: int
  hwfc :: int
  device :: "string option"

text \<open>
  What one turn of the loop receives from the system: the return value of \<^verbatim>\<open>poll\<close> and
  the two \<^verbatim>\<open>revents\<close>; the bytes that \<^verbatim>\<open>read\<close> on the serial descriptor delivers if it
  is called (\<open>None\<close> when it fails with \<open>-1\<close>); the clock if it is read.
\<close>

record event =
  poll_ret :: int
  revents0 :: "16 word"
  revents1 :: "16 word"
  read_ret :: "string option"
  clock :: timespec

text \<open>
  The world: the unread console input, what was printed on the two output streams (the
  diagnostics one entry per call), the byte strings passed to \<^verbatim>\<open>write\<close> on the serial
  descriptor, the paths passed to \<^verbatim>\<open>open\<close>, the attributes given to \<^verbatim>\<open>tcsetattr\<close>, and
  the two static variables of \<^verbatim>\<open>trace_show_reply\<close>.
\<close>

record world =
  stdin :: string
  stdout :: string
  stderr :: "string list"
  wire :: "string list"
  opened :: "string list"
  tty :: "termios option"
  lastts :: uint64_t
  total :: uint64_t

datatype fault =
  Write_out_of_bounds nat
  | Read_out_of_bounds
  | Uninitialised_pointer

datatype outcome = Exit int | Undefined fault | Blocked

datatype flow = Continue | Break | Return int | Crash fault

subsection \<open>The C library\<close>

text \<open>
  \<^verbatim>\<open>strlen\<close> on an array: the index of the first NUL. Without a NUL in the array the scan
  leaves it, which is \<open>None\<close>.
\<close>

definition strlen :: "string \<Rightarrow> nat option" where
  "strlen buf =
     (if NUL \<in> set buf then Some (length (takeWhile (\<lambda>c. c \<noteq> NUL) buf)) else None)"

text \<open>The bytes that a \<^verbatim>\<open>%s\<close> conversion prints, under the same condition.\<close>

definition cstring :: "string \<Rightarrow> string option" where
  "cstring buf = (if NUL \<in> set buf then Some (takeWhile (\<lambda>c. c \<noteq> NUL) buf) else None)"

text \<open>The assignment \<^verbatim>\<open>buf[i] = c\<close> with the array's bounds checked.\<close>

definition store :: "string \<Rightarrow> nat \<Rightarrow> char \<Rightarrow> fault + string" where
  "store buf i c = (if i < length buf then Inr (buf[i := c]) else Inl (Write_out_of_bounds i))"

text \<open>\<^verbatim>\<open>strlen(buf)-1\<close> is computed in \<^verbatim>\<open>size_t\<close>: at length 0 it wraps around.\<close>

definition size_pred :: "nat \<Rightarrow> nat" where
  "size_pred n = unat ((word_of_nat n :: size_t) - 1)"

text \<open>
  \<^verbatim>\<open>fgets(buf, n, stdin)\<close>: at most \<open>n - 1\<close> bytes, up to and including the first
  newline, then a NUL; a null pointer (\<open>None\<close>) when the stream has ended.
\<close>

fun read_line :: "nat \<Rightarrow> string \<Rightarrow> string \<times> string" where
  "read_line 0 inp = ([], inp)"
| "read_line (Suc n) [] = ([], [])"
| "read_line (Suc n) (c # cs) =
     (if c = NL then ([c], cs)
      else (case read_line n cs of (l, r) \<Rightarrow> (c # l, r)))"

definition fgets :: "string \<Rightarrow> nat \<Rightarrow> string \<Rightarrow> (string \<times> string) option" where
  "fgets buf n inp =
     (if inp = [] then None
      else (case read_line (n - 1) inp of
              (l, r) \<Rightarrow> Some (l @ [NUL] @ drop (length l + 1) buf, r)))"

text \<open>\<^verbatim>\<open>isprint\<close> in the C locale (the program never calls \<^verbatim>\<open>setlocale\<close>).\<close>

definition isprint :: "char \<Rightarrow> bool" where
  "isprint c = (32 \<le> (of_char c :: nat) \<and> (of_char c :: nat) \<le> 126)"

definition isspace :: "char \<Rightarrow> bool" where
  "isspace c = ((of_char c :: nat) = 32 \<or> (9 \<le> (of_char c :: nat) \<and> (of_char c :: nat) \<le> 13))"

definition isdigit :: "char \<Rightarrow> bool" where
  "isdigit c = (48 \<le> (of_char c :: nat) \<and> (of_char c :: nat) \<le> 57)"

text \<open>
  \<^verbatim>\<open>atoi\<close> as glibc has it, \<^verbatim>\<open>(int) strtol(s, NULL, 10)\<close>: blanks, a sign, digits; the
  value clamped to \<^verbatim>\<open>long\<close> and cut to 32 bits.
\<close>

fun digits_value :: "int \<Rightarrow> string \<Rightarrow> int" where
  "digits_value acc [] = acc"
| "digits_value acc (c # cs) =
     (if isdigit c then digits_value (acc * 10 + (int (of_char c) - 48)) cs else acc)"

definition strtol10 :: "string \<Rightarrow> int" where
  "strtol10 s =
     (let t = dropWhile isspace s;
          v = (case t of
                 [] \<Rightarrow> 0
               | c # cs \<Rightarrow>
                   if c = CHR ''-'' then - digits_value 0 cs
                   else if c = CHR ''+'' then digits_value 0 cs
                   else digits_value 0 t)
      in max (- (2 ^ 63)) (min (2 ^ 63 - 1) v))"

definition atoi :: "string \<Rightarrow> int" where
  "atoi s = sint (word_of_int (strtol10 s) :: 32 word)"

text \<open>The conversions of \<^verbatim>\<open>printf\<close> that the program uses.\<close>

definition hexdigit :: "nat \<Rightarrow> char" where
  "hexdigit d = ''0123456789abcdef'' ! d"

definition fmt_02hhx :: "char \<Rightarrow> string" where
  "fmt_02hhx c = [hexdigit (of_char c div 16), hexdigit (of_char c mod 16)]"

fun fmt_u :: "nat \<Rightarrow> string" where
  "fmt_u n =
     (if n < 10 then [char_of (48 + n)]
      else fmt_u (n div 10) @ [char_of (48 + n mod 10)])"

declare fmt_u.simps [simp del]

definition fmt_d :: "int \<Rightarrow> string" where
  "fmt_d i = (if i < 0 then CHR ''-'' # fmt_u (nat (- i)) else fmt_u (nat i))"

definition fmt_2d :: "int \<Rightarrow> string" where
  "fmt_2d i = replicate (2 - length (fmt_d i)) (CHR '' '') @ fmt_d i"

subsection \<open>Rendering a reply\<close>

text \<open>
  The two loops of \<^verbatim>\<open>debug_show_reply\<close>, with the index \<open>i\<close> and the output so far.
  \<^verbatim>\<open>read_reply\<close> calls them with \<open>0 \<le> len \<le> BUFLEN\<close>, the length of the array.
\<close>

function put_hex :: "string \<Rightarrow> int \<Rightarrow> int \<Rightarrow> string \<Rightarrow> string" where
  "put_hex buf len i out =
     (if i < len then put_hex buf len (i + 1) (out @ fmt_02hhx (buf ! nat i)) else out)"
  by pat_completeness auto
termination
  by (relation "measure (\<lambda>(buf, len, i, out). nat (len - i))") auto

declare put_hex.simps [simp del]

function put_ascii :: "string \<Rightarrow> int \<Rightarrow> int \<Rightarrow> string \<Rightarrow> string" where
  "put_ascii buf len i out =
     (if i < len
      then put_ascii buf len (i + 1)
             (out @ [if isprint (buf ! nat i) then buf ! nat i else CHR ''.''])
      else out)"
  by pat_completeness auto
termination
  by (relation "measure (\<lambda>(buf, len, i, out). nat (len - i))") auto

declare put_ascii.simps [simp del]

definition debug_show_reply :: "string \<Rightarrow> int \<Rightarrow> string \<Rightarrow> string" where
  "debug_show_reply buf len out =
     put_ascii buf len 0 (put_hex buf len 0 out @ ''  '') @ [NL]"

text \<open>\<^verbatim>\<open>timestamp\<close>: nanoseconds in 64 bits, unsigned, then milliseconds.\<close>

definition timestamp :: "timespec \<Rightarrow> uint64_t" where
  "timestamp ts = (tv_sec ts * 1000000000 + tv_nsec ts) div 1000000"

text \<open>
  \<^verbatim>\<open>trace_show_reply\<close>: the static \<^verbatim>\<open>lastts\<close> and \<^verbatim>\<open>total\<close> live in the world; both
  numbers are printed with the signed conversion \<^verbatim>\<open>PRId64\<close>.
\<close>

definition trace_show_reply :: "string \<Rightarrow> int \<Rightarrow> timespec \<Rightarrow> world \<Rightarrow> world" where
  "trace_show_reply buf len ts w =
     (let now = timestamp ts;
          diff = (if lastts w \<noteq> 0 then now - lastts w else 0);
          tot = (if lastts w \<noteq> 0 then total w + diff else total w)
      in w\<lparr>lastts := now, total := tot,
            stdout := put_ascii buf len 0
                        (stdout w @ fmt_d (sint tot) @ '' '' @ fmt_d (sint diff) @ '' '')
                      @ [NL]\<rparr>)"

text \<open>
  \<^verbatim>\<open>read_reply\<close>: the array starts zeroed, \<^verbatim>\<open>read\<close> stores at most \<open>BUFLEN\<close> bytes
  at its front. The result is the function's return value with the new world, or a fault
  when \<^verbatim>\<open>%s\<close> runs off an array without a NUL.
\<close>

definition read_reply :: "config \<Rightarrow> event \<Rightarrow> world \<Rightarrow> fault + (int \<times> world)" where
  "read_reply cfg e w =
     (case read_ret e of
        None \<Rightarrow> Inr (- 1, w\<lparr>stderr := stderr w @ [''read'']\<rparr>)
      | Some bytes \<Rightarrow>
          (let got = take BUFLEN bytes;
               reply = got @ replicate (BUFLEN - length got) NUL;
               cnt = int (length got)
           in if debug cfg \<noteq> 0 then
                Inr (0, w\<lparr>stdout := debug_show_reply reply cnt (stdout w)\<rparr>)
              else if trace cfg \<noteq> 0 then
                Inr (0, trace_show_reply reply cnt (clock e) w)
              else if annotate cfg \<noteq> 0 then
                (case cstring reply of
                   None \<Rightarrow> Inl Read_out_of_bounds
                 | Some s \<Rightarrow>
                     Inr (0, w\<lparr>stdout := stdout w @ ''read '' @ fmt_2d cnt
                                          @ '' bytes {'' @ s @ ''}'' @ [NL]\<rparr>))
              else
                (case cstring reply of
                   None \<Rightarrow> Inl Read_out_of_bounds
                 | Some s \<Rightarrow> Inr (0, w\<lparr>stdout := stdout w @ s\<rparr>))))"

subsection \<open>The serial line\<close>

text \<open>
  The attributes that \<^verbatim>\<open>open_serial\<close> builds, from a zeroed structure. \<^verbatim>\<open>debug\<close> and
  \<^verbatim>\<open>trace\<close> are the file-scope flags.
\<close>

definition nterm :: "config \<Rightarrow> tcflag_t \<Rightarrow> int \<Rightarrow> int \<Rightarrow> termios" where
  "nterm cfg baud icrnl_arg hwfc_arg =
     \<lparr>c_iflag = (if icrnl_arg \<noteq> 0 then IGNPAR OR ICRNL else IGNPAR),
      c_oflag = 0,
      c_cflag = (if hwfc_arg \<noteq> 0 then baud OR CS8 OR CLOCAL OR CREAD OR CRTSCTS
                 else baud OR CS8 OR CLOCAL OR CREAD),
      c_lflag = (if debug cfg = 0 \<and> trace cfg = 0 then ICANON else 0),
      c_cc_VTIME = 10,
      c_cc_VMIN = 1\<rparr>"

text \<open>
  \<^verbatim>\<open>open_serial\<close>: \<open>open_ret\<close> says what \<^verbatim>\<open>open\<close> returns for a path. The result is the
  descriptor (negative when the device cannot be opened) and the new world.
\<close>

definition open_serial ::
  "(string \<Rightarrow> int) \<Rightarrow> config \<Rightarrow> string \<Rightarrow> tcflag_t \<Rightarrow> int \<Rightarrow> int \<Rightarrow> world \<Rightarrow> int \<times> world" where
  "open_serial open_ret cfg name baud icrnl_arg hwfc_arg w =
     (let fd = open_ret name;
          w1 = w\<lparr>opened := opened w @ [name]\<rparr>
      in if fd < 0 then (fd, w1\<lparr>stderr := stderr w1 @ [''Cannot open '' @ name @ '' : '']\<rparr>)
         else (fd, w1\<lparr>tty := Some (nterm cfg baud icrnl_arg hwfc_arg)\<rparr>))"

subsection \<open>The program\<close>

definition usage :: "string \<Rightarrow> world \<Rightarrow> world" where
  "usage progname w =
     w\<lparr>stderr := stderr w @
        [''Usage: '' @ progname @ '' [OPTION]...'' @ [NL]
         @ ''  -a          annotated mode'' @ [NL]
         @ ''  -b [num]    baud rate in bits per second, default: '' @ fmt_d BPS @ [NL]
         @ ''  -c          map CR to NL on input'' @ [NL]
         @ ''  -d          debug mode'' @ [NL]
         @ ''  -f          enable hardware flow control'' @ [NL]
         @ ''  -h          prints this message'' @ [NL]
         @ ''  -o [0,1,2]  NL mapping on output, 0=none 1=CR 2=CRNL'' @ [NL]
         @ ''  -p [file]   serial port device to open, default: '' @ [CHR 0x27] @ DEVICE
         @ [CHR 0x27] @ [NL]
         @ ''  -t          trace mode, with relative time stamps'' @ [NL]]\<rparr>"

text \<open>\<^verbatim>\<open>progname\<close>: what follows the last slash of \<^verbatim>\<open>argv[0]\<close>.\<close>

definition progname_of :: "string \<Rightarrow> string" where
  "progname_of argv0 =
     (if CHR ''/'' \<in> set argv0 then rev (takeWhile (\<lambda>c. c \<noteq> CHR ''/'') (rev argv0))
      else argv0)"

text \<open>The variables as \<^verbatim>\<open>main\<close> declares them.\<close>

definition config0 :: config where
  "config0 = \<lparr>annotate = 0, debug = 0, trace = 0, bps = BPS, icrnl = 0, nlmap = 0,
              hwfc = 0, device = None\<rparr>"

text \<open>
  The option loop. Its input is what the successive calls of \<^verbatim>\<open>getopt\<close> return: the
  option character (\<open>?\<close> for an option it does not know) with \<^verbatim>\<open>optarg\<close>; at the end of
  the list \<^verbatim>\<open>getopt\<close> returns \<^verbatim>\<open>EOF\<close>. \<open>Inl\<close> is a \<^verbatim>\<open>return\<close> from \<^verbatim>\<open>main\<close>.
\<close>

fun main_getopt :: "string \<Rightarrow> (char \<times> string) list \<Rightarrow> config \<Rightarrow> world \<Rightarrow> (int \<times> world) + config" where
  "main_getopt progname [] cfg w = Inr cfg"
| "main_getopt progname ((c, optarg) # rest) cfg w =
     (if c = CHR ''a'' then main_getopt progname rest (cfg\<lparr>annotate := 1\<rparr>) w
      else if c = CHR ''b'' then main_getopt progname rest (cfg\<lparr>bps := atoi optarg\<rparr>) w
      else if c = CHR ''c'' then main_getopt progname rest (cfg\<lparr>icrnl := 1\<rparr>) w
      else if c = CHR ''d'' then main_getopt progname rest (cfg\<lparr>debug := 1\<rparr>) w
      else if c = CHR ''f'' then main_getopt progname rest (cfg\<lparr>hwfc := 1\<rparr>) w
      else if c = CHR ''o'' then main_getopt progname rest (cfg\<lparr>nlmap := atoi optarg\<rparr>) w
      else if c = CHR ''p'' then main_getopt progname rest (cfg\<lparr>device := Some optarg\<rparr>) w
      else if c = CHR ''t'' then main_getopt progname rest (cfg\<lparr>trace := 1\<rparr>) w
      else if c = CHR ''h'' then Inl (0, usage progname w)
      else Inl (- 1, usage progname w))"

text \<open>The \<^verbatim>\<open>switch (bps)\<close>: \<open>None\<close> is its \<^verbatim>\<open>default\<close> branch.\<close>

definition main_baud :: "int \<Rightarrow> tcflag_t option" where
  "main_baud n =
     (if n = 1200 then Some B1200
      else if n = 1800 then Some B1800
      else if n = 2400 then Some B2400
      else if n = 4800 then Some B4800
      else if n = 9600 then Some B9600
      else if n = 19200 then Some B19200
      else if n = 38400 then Some B38400
      else if n = 57600 then Some B57600
      else if n = 115200 then Some B115200
      else None)"

text \<open>
  The \<^verbatim>\<open>switch (nlmap)\<close> on the line buffer. It has no \<^verbatim>\<open>default\<close>. A fault is a store
  outside the array or a \<^verbatim>\<open>strlen\<close> that leaves it.
\<close>

definition main_nlmap :: "int \<Rightarrow> string \<Rightarrow> fault + string" where
  "main_nlmap n buf =
     (if n = 0 then Inr buf
      else if n = 1 then
        (case strlen buf of
           None \<Rightarrow> Inl Read_out_of_bounds
         | Some k \<Rightarrow> store buf (size_pred k) CR)
      else if n = 2 then
        (case strlen buf of
           None \<Rightarrow> Inl Read_out_of_bounds
         | Some k \<Rightarrow>
             (case store buf (size_pred k) CR of
                Inl f \<Rightarrow> Inl f
              | Inr buf1 \<Rightarrow>
                  (case strlen buf1 of
                     None \<Rightarrow> Inl Read_out_of_bounds
                   | Some m \<Rightarrow> store buf1 m NL)))
      else Inr buf)"

text \<open>
  The console branch of the loop: clear the buffer, \<^verbatim>\<open>fgets\<close>, remap, and
  \<^verbatim>\<open>write(fd, buf, strlen(buf))\<close>.
\<close>

definition main_console :: "config \<Rightarrow> world \<Rightarrow> flow \<times> world" where
  "main_console cfg w =
     (case fgets (replicate BUFLEN NUL) BUFLEN (stdin w) of
        None \<Rightarrow> (Break, w)
      | Some (buf, rest) \<Rightarrow>
          (case main_nlmap (nlmap cfg) buf of
             Inl f \<Rightarrow> (Crash f, w\<lparr>stdin := rest\<rparr>)
           | Inr buf1 \<Rightarrow>
               (case strlen buf1 of
                  None \<Rightarrow> (Crash Read_out_of_bounds, w\<lparr>stdin := rest\<rparr>)
                | Some k \<Rightarrow> (Continue, w\<lparr>stdin := rest, wire := wire w @ [take k buf1]\<rparr>))))"

text \<open>The serial branch: the two conditions, then \<^verbatim>\<open>read_reply\<close>, whose value is dropped.\<close>

definition main_serial :: "config \<Rightarrow> event \<Rightarrow> world \<Rightarrow> flow \<times> world" where
  "main_serial cfg e w =
     (if revents1 e AND POLLERR \<noteq> 0 then (Return (- 1), w\<lparr>stderr := stderr w @ [''POLLERR'' @ [NL]]\<rparr>)
      else if revents1 e AND POLLHUP \<noteq> 0 then (Return (- 1), w\<lparr>stderr := stderr w @ [''POLLHUP'' @ [NL]]\<rparr>)
      else if revents1 e AND (POLLIN OR POLLPRI) \<noteq> 0 then
        (case read_reply cfg e w of
           Inl f \<Rightarrow> (Crash f, w)
         | Inr (r, w1) \<Rightarrow> (Continue, w1))
      else (Continue, w))"

text \<open>One turn of \<^verbatim>\<open>while (1)\<close>.\<close>

definition main_body :: "config \<Rightarrow> event \<Rightarrow> world \<Rightarrow> flow \<times> world" where
  "main_body cfg e w =
     (if poll_ret e < 0 then (Return (- 1), w\<lparr>stderr := stderr w @ [''poll failed'']\<rparr>)
      else if poll_ret e = 0 then (Return (- 1), w\<lparr>stderr := stderr w @ [''unexpected time out'']\<rparr>)
      else if revents0 e AND (POLLIN OR POLLPRI) \<noteq> 0 then
        (case main_console cfg w of
           (Continue, w1) \<Rightarrow> main_serial cfg e w1
         | (fl, w1) \<Rightarrow> (fl, w1))
      else main_serial cfg e w)"

text \<open>
  The loop over the events. \<^verbatim>\<open>poll\<close> waits without a timeout, so when no event is left
  the process stays blocked: \<open>Blocked\<close>. \<^verbatim>\<open>break\<close> leads to \<^verbatim>\<open>return 0\<close>.
\<close>

fun main_loop :: "config \<Rightarrow> event list \<Rightarrow> world \<Rightarrow> outcome \<times> world" where
  "main_loop cfg [] w = (Blocked, w)"
| "main_loop cfg (e # es) w =
     (case main_body cfg e w of
        (Continue, w1) \<Rightarrow> main_loop cfg es w1
      | (Break, w1) \<Rightarrow> (Exit 0, w1)
      | (Return r, w1) \<Rightarrow> (Exit r, w1)
      | (Crash f, w1) \<Rightarrow> (Undefined f, w1))"

text \<open>\<^verbatim>\<open>main\<close> after the option loop: the baud switch, \<^verbatim>\<open>open_serial\<close>, the loop.\<close>

definition main_session :: "(string \<Rightarrow> int) \<Rightarrow> string \<Rightarrow> config \<Rightarrow> event list \<Rightarrow> world \<Rightarrow> outcome \<times> world" where
  "main_session open_ret progname cfg evs w =
     (case main_baud (bps cfg) of
        None \<Rightarrow> (Exit (- 1), usage progname w)
      | Some baud \<Rightarrow>
          (case device cfg of
             None \<Rightarrow> (Undefined Uninitialised_pointer, w)
           | Some name \<Rightarrow>
               (case open_serial open_ret cfg name baud (icrnl cfg) (hwfc cfg) w of
                  (fd, w1) \<Rightarrow> if fd < 0 then (Exit (- 1), w1) else main_loop cfg evs w1)))"

definition main :: "(string \<Rightarrow> int) \<Rightarrow> string \<Rightarrow> (char \<times> string) list \<Rightarrow> event list \<Rightarrow> world \<Rightarrow> outcome \<times> world" where
  "main open_ret argv0 optv evs w =
     (case main_getopt (progname_of argv0) optv config0 w of
        Inl (r, w1) \<Rightarrow> (Exit r, w1)
      | Inr cfg \<Rightarrow> main_session open_ret (progname_of argv0) cfg evs w)"

text \<open>The status that the parent sees: the low eight bits of what \<^verbatim>\<open>main\<close> returns.\<close>

definition exit_status :: "int \<Rightarrow> int" where
  "exit_status r = r mod 256"

text \<open>The world when the process starts, with the console input given.\<close>

definition world0 :: "string \<Rightarrow> world" where
  "world0 inp = \<lparr>stdin = inp, stdout = [], stderr = [], wire = [], opened = [], tty = None,
                 lastts = 0, total = 0\<rparr>"

subsection \<open>Vocabulary of the specification\<close>

text \<open>Canonical mode is the bit \<^verbatim>\<open>ICANON\<close> of the local modes.\<close>

definition canonical :: "termios \<Rightarrow> bool" where
  "canonical t = (c_lflag t AND ICANON \<noteq> 0)"

definition supported_baud :: "int set" where
  "supported_baud = {1200, 1800, 2400, 4800, 9600, 19200, 38400, 57600, 115200}"

text \<open>
  An event on which only the serial descriptor has data to read: \<^verbatim>\<open>poll\<close> reports a
  descriptor, the console is quiet, and neither \<^verbatim>\<open>POLLERR\<close> nor \<^verbatim>\<open>POLLHUP\<close> is set.
\<close>

definition serial_ready :: "event \<Rightarrow> bool" where
  "serial_ready e =
     (0 < poll_ret e \<and> revents0 e AND (POLLIN OR POLLPRI) = 0
      \<and> revents1 e AND POLLERR = 0 \<and> revents1 e AND POLLHUP = 0
      \<and> revents1 e AND (POLLIN OR POLLPRI) \<noteq> 0)"


text \<open>Such an event on which \<^verbatim>\<open>read\<close> succeeds, and the bytes that it stores.\<close>

definition serial_data :: "event \<Rightarrow> bool" where
  "serial_data e = (serial_ready e \<and> read_ret e \<noteq> None)"

definition received :: "event \<Rightarrow> string" where
  "received e = (case read_ret e of None \<Rightarrow> [] | Some bytes \<Rightarrow> take BUFLEN bytes)"

text \<open>An event of that kind, with the clock and the bytes given.\<close>

definition serial_event :: "timespec \<Rightarrow> string \<Rightarrow> event" where
  "serial_event ts bytes =
     \<lparr>poll_ret = 1, revents0 = 0, revents1 = POLLIN, read_ret = Some bytes, clock = ts\<rparr>"

text \<open>The time of an event in milliseconds, as a number.\<close>

definition millis :: "event \<Rightarrow> nat" where
  "millis e = unat (timestamp (clock e))"

text \<open>The ASCII rendering: a dot for every byte that is not printable.\<close>

definition ascii_view :: "string \<Rightarrow> string" where
  "ascii_view bytes = map (\<lambda>c. if isprint c then c else CHR ''.'') bytes"

text \<open>The number that a string of lowercase hexadecimal digits denotes.\<close>

definition hex_digit_value :: "char \<Rightarrow> nat" where
  "hex_digit_value c =
     (if isdigit c then of_char c - 48 else of_char c - 87)"

definition hex_value :: "string \<Rightarrow> nat" where
  "hex_value ds = foldl (\<lambda>a d. 16 * a + hex_digit_value d) 0 ds"

text \<open>
  The trace output as the specification words it: the first event has \<open>diff = 0\<close>, every
  later one the time since the event before it; \<open>total\<close> is the sum of the diffs so far;
  a line is the total, the diff and the ASCII rendering. \<open>prev\<close> is the time of the event
  before (\<open>None\<close> at the first), \<open>tot\<close> the total so far.
\<close>

definition spec_diff :: "nat option \<Rightarrow> nat \<Rightarrow> nat" where
  "spec_diff prev t = (case prev of None \<Rightarrow> 0 | Some p \<Rightarrow> t - p)"

fun spec_trace :: "nat option \<Rightarrow> nat \<Rightarrow> (nat \<times> string) list \<Rightarrow> string" where
  "spec_trace prev tot [] = []"
| "spec_trace prev tot ((t, bytes) # rest) =
     fmt_u (tot + spec_diff prev t) @ '' '' @ fmt_u (spec_diff prev t) @ '' ''
     @ ascii_view bytes @ [NL]
     @ spec_trace (Some t) (tot + spec_diff prev t) rest"

text \<open>Whether a result of the line remapping is a store outside the buffer.\<close>

definition write_fault :: "fault + string \<Rightarrow> bool" where
  "write_fault r = (case r of Inl (Write_out_of_bounds i) \<Rightarrow> True | _ \<Rightarrow> False)"

section \<open>Properties\<close>

subsection \<open>Reading and remapping a console line\<close>

lemma read_line_newline:
  "NL \<notin> set s \<Longrightarrow> length s < n \<Longrightarrow> read_line n (s @ NL # rest) = (s @ [NL], rest)"
proof (induction s arbitrary: n)
  case Nil
  then show ?case by (cases n) simp_all
next
  case (Cons c s)
  then show ?case by (cases n) auto
qed

lemma read_line_full:
  "NL \<notin> set s \<Longrightarrow> length s = n \<Longrightarrow> read_line n (s @ rest) = (s, rest)"
proof (induction s arbitrary: n)
  case Nil
  then show ?case by simp
next
  case (Cons c s)
  then show ?case by (cases n) auto
qed

lemma takeWhile_terminated:
  "NUL \<notin> set l \<Longrightarrow> takeWhile (\<lambda>c. c \<noteq> NUL) (l @ NUL # zs) = l"
  by (induction l) auto

lemma strlen_terminated:
  "NUL \<notin> set l \<Longrightarrow> strlen (l @ NUL # zs) = Some (length l)"
  by (simp add: strlen_def takeWhile_terminated) 

lemma strlen_unterminated:
  "NUL \<notin> set l \<Longrightarrow> strlen l = None"
  by (simp add: strlen_def)

lemma size_pred_pos: "0 < n \<Longrightarrow> n \<le> BUFLEN \<Longrightarrow> size_pred n = n - 1"
  unfolding size_pred_def BUFLEN_def
  by (simp add: unat_sub word_le_nat_alt unat_of_nat take_bit_nat_eq_self)

lemma size_pred_0: "size_pred 0 = 2 ^ 64 - 1"
  unfolding size_pred_def by (simp add: unsigned_minus_1_eq_mask mask_eq_exp_minus_1)

lemma fgets_newline:
  assumes "NL \<notin> set s" "length s + 1 < BUFLEN"
  shows "fgets (replicate BUFLEN NUL) BUFLEN (s @ NL # rest)
         = Some (s @ [NL] @ NUL # replicate (BUFLEN - length s - 2) NUL, rest)"
  using assms by (simp add: fgets_def read_line_newline BUFLEN_def)

lemma fgets_full:
  assumes "NL \<notin> set s" "length s + 1 = BUFLEN" 
  shows "fgets (replicate BUFLEN NUL) BUFLEN (s @ rest) = Some (s @ [NUL], rest)"
  using assms by (auto simp add: fgets_def read_line_full BUFLEN_def)

lemma store_in: "i < length buf \<Longrightarrow> store buf i c = Inr (buf[i := c])"
  by (simp add: store_def)

lemma CR_not_NUL: "CR \<noteq> NUL"
  by (simp add: CR_def NUL_def)

lemma NL_not_NUL: "NL \<noteq> NUL"
  by (simp add: NL_def NUL_def)

lemma nlmap_0: "main_nlmap 0 buf = Inr buf"
  by (simp add: main_nlmap_def)


lemma nlmap_1:
  assumes "NUL \<notin> set l" "x \<noteq> NUL" "length l + 1 < BUFLEN"
  shows "main_nlmap 1 (l @ [x] @ NUL # zs) = Inr (l @ [CR] @ NUL # zs)"
proof -
  have "strlen ((l @ [x]) @ NUL # zs) = Some (length (l @ [x]))"
    using assms by (intro strlen_terminated) simp
  then have "strlen (l @ [x] @ NUL # zs) = Some (length l + 1)" by simp
  moreover have "size_pred (length l + 1) = length l"
    using assms size_pred_pos [of "length l + 1"] by simp
  ultimately show ?thesis
    by (simp add: main_nlmap_def store_def)
qed

lemma nlmap_2:
  assumes "NUL \<notin> set l" "x \<noteq> NUL" "length l + 1 < BUFLEN"
  shows "main_nlmap 2 (l @ [x] @ NUL # zs) = Inr (l @ [CR] @ NL # zs)"
proof -
  have "strlen ((l @ [x]) @ NUL # zs) = Some (length (l @ [x]))"
    using assms by (intro strlen_terminated) simp
  then have 1: "strlen (l @ [x] @ NUL # zs) = Some (length l + 1)" by simp
  have 2: "size_pred (length l + 1) = length l"
    using assms size_pred_pos [of "length l + 1"] by simp
  have "strlen ((l @ [CR]) @ NUL # zs) = Some (length (l @ [CR]))"
    using assms CR_not_NUL by (intro strlen_terminated) simp
  then have 3: "strlen (l @ [CR] @ NUL # zs) = Some (length l + 1)" by simp
  have 4: "(l @ CR # NUL # zs)[Suc (length l) := NL] = l @ CR # NL # zs"
    by (simp add: list_update_append)
  show ?thesis
    using 1 2 3 4 by (simp add: main_nlmap_def store_def)
qed

lemma console_line_0:
  assumes "NL \<notin> set s" "NUL \<notin> set s" "length s + 1 < BUFLEN" "nlmap cfg = 0"
    "stdin w = s @ NL # rest"
  shows "main_console cfg w = (Continue, w\<lparr>stdin := rest, wire := wire w @ [s @ [NL]]\<rparr>)"
proof -
  let ?zs = "replicate (BUFLEN - length s - 2) NUL"
  have "strlen ((s @ [NL]) @ NUL # ?zs) = Some (length (s @ [NL]))"
    using assms NL_not_NUL by (intro strlen_terminated) simp
  then have "strlen (s @ [NL] @ NUL # ?zs) = Some (length s + 1)" by simp
  then show ?thesis
    using assms fgets_newline [OF assms(1) assms(3), of rest]
    by (simp add: main_console_def nlmap_0)
qed

lemma console_line_1:
  assumes "NL \<notin> set s" "NUL \<notin> set s" "length s + 1 < BUFLEN" "nlmap cfg = 1"
    "stdin w = s @ NL # rest"
  shows "main_console cfg w = (Continue, w\<lparr>stdin := rest, wire := wire w @ [s @ [CR]]\<rparr>)"
proof -
  let ?zs = "replicate (BUFLEN - length s - 2) NUL"
  have "strlen ((s @ [CR]) @ NUL # ?zs) = Some (length (s @ [CR]))"
    using assms CR_not_NUL by (intro strlen_terminated) simp
  then have "strlen (s @ [CR] @ NUL # ?zs) = Some (length s + 1)" by simp
  then show ?thesis
    using assms fgets_newline [OF assms(1) assms(3), of rest]
      nlmap_1 [OF assms(2) NL_not_NUL assms(3), of ?zs]
    by (simp add: main_console_def)
qed

lemma console_line_2:
  assumes "NL \<notin> set s" "NUL \<notin> set s" "length s + 2 < BUFLEN" "nlmap cfg = 2"
    "stdin w = s @ NL # rest"
  shows "main_console cfg w = (Continue, w\<lparr>stdin := rest, wire := wire w @ [s @ [CR, NL]]\<rparr>)"
proof -
  let ?zs = "replicate (BUFLEN - length s - 2) NUL"
  have len: "length s + 1 < BUFLEN" using assms by simp
  obtain k where k: "BUFLEN - length s - 2 = Suc k"
    using assms(3) by (cases "BUFLEN - length s - 2") simp_all
  have "strlen ((s @ [CR, NL]) @ NUL # replicate k NUL) = Some (length (s @ [CR, NL]))"
    using assms CR_not_NUL NL_not_NUL by (intro strlen_terminated) simp
  moreover have zs: "?zs = NUL # replicate k NUL" by (simp only: k replicate_Suc)
  ultimately have "strlen (s @ [CR] @ NL # ?zs) = Some (length s + 2)"
    unfolding zs by simp
  then show ?thesis
    using assms fgets_newline [OF assms(1) len, of rest]
      nlmap_2 [OF assms(2) NL_not_NUL len, of ?zs]
    by (simp add: main_console_def)
qed

lemma console_line_2_full:
  assumes "NL \<notin> set s" "NUL \<notin> set s" "length s + 2 = BUFLEN" "nlmap cfg = 2"
    "stdin w = s @ NL # rest"
  shows "main_console cfg w = (Crash Read_out_of_bounds, w\<lparr>stdin := rest\<rparr>)"
proof -
  have len: "length s + 1 < BUFLEN" using assms by simp
  have z: "BUFLEN - length s - 2 = 0" using assms by simp
  have "strlen (s @ [CR, NL]) = None"
    using assms CR_not_NUL NL_not_NUL by (intro strlen_unterminated) auto
  then show ?thesis
    using assms fgets_newline [OF assms(1) len, of rest]
      nlmap_2 [OF assms(2) NL_not_NUL len, of "[]"]
    by (simp add: main_console_def z)
qed

lemma console_full_2:
  assumes "NL \<notin> set s" "NUL \<notin> set s" "length s + 2 = BUFLEN" "nlmap cfg = 2"
    "stdin w = s @ x # rest" "x \<noteq> NL" "x \<noteq> NUL"
  shows "main_console cfg w = (Crash Read_out_of_bounds, w\<lparr>stdin := rest\<rparr>)"
    and "fgets (replicate BUFLEN NUL) BUFLEN (stdin w) = Some (s @ [x, NUL], rest)"
    and "main_nlmap 2 (s @ [x, NUL]) = Inr (s @ [CR, NL])"
    and "strlen (s @ [CR, NL]) = None"
proof -
  have len: "length s + 1 < BUFLEN" using assms by simp
  have nl: "NL \<notin> set (s @ [x])" using assms by auto
  have l2: "length (s @ [x]) + 1 = BUFLEN" using assms by simp
  show f: "fgets (replicate BUFLEN NUL) BUFLEN (stdin w) = Some (s @ [x, NUL], rest)"
    using fgets_full [OF nl l2, of rest] assms(5) by simp
  show m: "main_nlmap 2 (s @ [x, NUL]) = Inr (s @ [CR, NL])"
    using nlmap_2 [OF assms(2) assms(7) len, of "[]"] by simp
  show n: "strlen (s @ [CR, NL]) = None"
    using assms CR_not_NUL NL_not_NUL by (intro strlen_unterminated) auto
  show "main_console cfg w = (Crash Read_out_of_bounds, w\<lparr>stdin := rest\<rparr>)"
    using f m n assms(4) by (simp add: main_console_def)
qed

subsection \<open>The rendering loops\<close>

lemma put_ascii_step:
  "0 \<le> i \<Longrightarrow> nat i \<le> length bytes \<Longrightarrow>
   put_ascii (bytes @ pad) (int (length bytes)) i out = out @ ascii_view (drop (nat i) bytes)"
proof (induction "bytes @ pad" "int (length bytes)" i out rule: put_ascii.induct)
  case (1 i out)
  show ?case
  proof (cases "i < int (length bytes)")
    case True
    then have lt: "nat i < length bytes" using 1(2) by simp
    have "put_ascii (bytes @ pad) (int (length bytes)) (i + 1)
            (out @ [if isprint ((bytes @ pad) ! nat i) then (bytes @ pad) ! nat i else CHR ''.''])
          = (out @ [if isprint ((bytes @ pad) ! nat i) then (bytes @ pad) ! nat i else CHR ''.''])
            @ ascii_view (drop (nat (i + 1)) bytes)"
      using True 1(2) lt by (intro 1(1)) simp_all
    moreover have "drop (nat i) bytes = bytes ! nat i # drop (nat (i + 1)) bytes"
      using lt 1(2) by (simp add: Cons_nth_drop_Suc nat_add_distrib)
    moreover have "(bytes @ pad) ! nat i = bytes ! nat i"
      using lt by (simp add: nth_append)
    ultimately show ?thesis
      using True by (subst put_ascii.simps) (simp add: ascii_view_def)
  next
    case False
    then have "drop (nat i) bytes = []" using 1(2,3) by simp
    then show ?thesis
      using False by (subst put_ascii.simps) (simp add: ascii_view_def)
  qed
qed

lemma put_ascii_all:
  "put_ascii (bytes @ pad) (int (length bytes)) 0 out = out @ ascii_view bytes"
  using put_ascii_step [of 0 bytes pad out] by simp

lemma put_hex_step:
  "0 \<le> i \<Longrightarrow> nat i \<le> length bytes \<Longrightarrow>
   put_hex (bytes @ pad) (int (length bytes)) i out
   = out @ concat (map fmt_02hhx (drop (nat i) bytes))"
proof (induction "bytes @ pad" "int (length bytes)" i out rule: put_hex.induct)
  case (1 i out)
  show ?case
  proof (cases "i < int (length bytes)")
    case True
    then have lt: "nat i < length bytes" using 1(2) by simp
    have "put_hex (bytes @ pad) (int (length bytes)) (i + 1)
            (out @ fmt_02hhx ((bytes @ pad) ! nat i))
          = (out @ fmt_02hhx ((bytes @ pad) ! nat i))
            @ concat (map fmt_02hhx (drop (nat (i + 1)) bytes))"
      using True 1(2) lt by (intro 1(1)) simp_all
    moreover have "drop (nat i) bytes = bytes ! nat i # drop (nat (i + 1)) bytes"
      using lt 1(2) by (simp add: Cons_nth_drop_Suc nat_add_distrib)
    moreover have "(bytes @ pad) ! nat i = bytes ! nat i"
      using lt by (simp add: nth_append)
    ultimately show ?thesis
      using True by (subst put_hex.simps) simp
  next
    case False
    then have "drop (nat i) bytes = []" using 1(2,3) by simp
    then show ?thesis
      using False by (subst put_hex.simps) simp
  qed
qed

lemma put_hex_all:
  "put_hex (bytes @ pad) (int (length bytes)) 0 out = out @ concat (map fmt_02hhx bytes)"
  using put_hex_step [of 0 bytes pad out] by simp

lemma debug_show_reply_eq:
  "debug_show_reply (bytes @ pad) (int (length bytes)) out
   = out @ concat (map fmt_02hhx bytes) @ ''  '' @ ascii_view bytes @ [NL]"
  by (simp add: debug_show_reply_def put_hex_all put_ascii_all)

lemma hexdigit_value: "d < 16 \<Longrightarrow> hex_digit_value (hexdigit d) = d"
proof -
  assume "d < 16"
  then have "d \<in> {0,1,2,3,4,5,6,7,8,9,10,11,12,13,14,15}" by simp presburger
  then show ?thesis
    by (auto simp add: hex_digit_value_def hexdigit_def isdigit_def)
qed

lemma hexdigit_in: "d < 16 \<Longrightarrow> hexdigit d \<in> set ''0123456789abcdef''"
  unfolding hexdigit_def by (rule nth_mem) simp

lemma of_char_less_256: "(of_char c :: nat) < 256"
  by (cases c) (simp add: )

lemma fmt_02hhx_props:
  "length (fmt_02hhx c) = 2"
  "set (fmt_02hhx c) \<subseteq> set ''0123456789abcdef''"
  "hex_value (fmt_02hhx c) = of_char c"
proof -
  have d: "(of_char c :: nat) div 16 < 16" "(of_char c :: nat) mod 16 < 16"
    using of_char_less_256 [of c] by presburger+
  show "length (fmt_02hhx c) = 2" by (simp add: fmt_02hhx_def)
  show "set (fmt_02hhx c) \<subseteq> set ''0123456789abcdef''"
    using hexdigit_in [OF d(1)] hexdigit_in [OF d(2)] by (simp add: fmt_02hhx_def)
  show "hex_value (fmt_02hhx c) = of_char c"
    using hexdigit_value [OF d(1)] hexdigit_value [OF d(2)]
    by (simp add: fmt_02hhx_def hex_value_def)
qed

subsection \<open>Replies and the loop\<close>

lemma takeWhile_with_NUL:
  "NUL \<in> set bytes \<Longrightarrow> takeWhile (\<lambda>c. c \<noteq> NUL) (bytes @ pad) = takeWhile (\<lambda>c. c \<noteq> NUL) bytes"
  by (induction bytes) auto

lemma cstring_with_NUL:
  "NUL \<in> set bytes \<Longrightarrow> cstring (bytes @ pad) = Some (takeWhile (\<lambda>c. c \<noteq> NUL) bytes)"
  by (simp add: cstring_def takeWhile_with_NUL)

lemma cstring_zeroes: "0 < k \<Longrightarrow> cstring (replicate k NUL) = Some []"
  by (cases k) (simp_all add: cstring_def)

lemma main_body_serial:
  "serial_ready e \<Longrightarrow>
   main_body cfg e w = (case read_reply cfg e w of
                           Inl f \<Rightarrow> (Crash f, w)
                         | Inr (r, w1) \<Rightarrow> (Continue, w1))"
  by (simp add: serial_ready_def main_body_def main_serial_def)

lemma read_reply_fail:
  "read_ret e = None \<Longrightarrow> read_reply cfg e w = Inr (- 1, w\<lparr>stderr := stderr w @ [''read'']\<rparr>)"
  by (simp add: read_reply_def)

lemma read_reply_empty:
  assumes "read_ret e = Some []"
  shows "\<exists>w1. read_reply cfg e w = Inr (0, w1)"
  using assms by (simp add: read_reply_def Let_def cstring_zeroes BUFLEN_def)

lemma fmt_2d_3: "fmt_2d 3 = '' 3''"
  by (simp add: fmt_2d_def fmt_d_def fmt_u.simps) code_simp

section \<open>The claims\<close>

subsection \<open>C6: canonical mode\<close>

text \<open>
  C6. In the attributes that \<^verbatim>\<open>open_serial\<close> sets on a device it has opened, canonical
  input mode is enabled if and only if neither the debug flag nor the trace flag is set;
  when either is set the local modes are zero, which is raw mode.
\<close>

theorem canonical_iff_no_debug_no_trace:
  assumes "0 \<le> open_ret name"
  shows "tty (snd (open_serial open_ret cfg name baud i h w)) = Some (nterm cfg baud i h)
       \<and> canonical (nterm cfg baud i h) = (debug cfg = 0 \<and> trace cfg = 0)
       \<and> (c_lflag (nterm cfg baud i h) = 0) = (debug cfg \<noteq> 0 \<or> trace cfg \<noteq> 0)"
  using assms
  by (simp add: open_serial_def Let_def nterm_def canonical_def ICANON_def)

text \<open>With the trace flag the line is raw, without any flag it is canonical.\<close>

theorem canonical_iff_no_debug_no_trace_witness:
  "(0::int) \<le> (\<lambda>p. 3) ''/dev/ttyUSB0''
   \<and> tty (snd (open_serial (\<lambda>p. 3) (config0\<lparr>trace := 1\<rparr>) ''/dev/ttyUSB0'' B9600 0 0 (world0 [])))
       = Some (nterm (config0\<lparr>trace := 1\<rparr>) B9600 0 0)
   \<and> \<not> canonical (nterm (config0\<lparr>trace := 1\<rparr>) B9600 0 0)
   \<and> canonical (nterm config0 B9600 0 0)"
  using canonical_iff_no_debug_no_trace [of "\<lambda>p. 3" "''/dev/ttyUSB0''" "config0\<lparr>trace := 1\<rparr>" B9600 0 0 "world0 []"]
    canonical_iff_no_debug_no_trace [of "\<lambda>p. 3" "''/dev/ttyUSB0''" "config0" B9600 0 0 "world0 []"]
  by (simp add: config0_def)

subsection \<open>C2: the default device\<close>

text \<open>
  C2. The claim is that without \<^verbatim>\<open>-p\<close> the program opens the default device
  \<^verbatim>\<open>DEVICE\<close>. The code never assigns \<^verbatim>\<open>DEVICE\<close> to \<^verbatim>\<open>device\<close>: run without options,
  \<^verbatim>\<open>main\<close> passes the uninitialised pointer to \<^verbatim>\<open>open_serial\<close>, and nothing is opened
  under the name \<^verbatim>\<open>/dev/ttyS0\<close>.
\<close>

theorem no_device_flag_uninitialised:
  "main open_ret ''slush'' [] evs w = (Undefined Uninitialised_pointer, w)
   \<and> device config0 = None"
  by (simp add: main_def main_session_def config0_def BPS_def main_baud_def)

subsection \<open>C8: debug rendering\<close>

text \<open>
  C8. In debug mode a chunk of bytes is printed as the two-digit lowercase hexadecimal
  form of every byte, without separators, then two spaces, then the ASCII rendering with a
  dot for every byte that is not printable, then the end of the line. The two digits of a
  byte are lowercase hexadecimal digits and denote the byte.
\<close>

theorem debug_rendering:
  assumes "debug cfg \<noteq> 0" "read_ret e = Some bytes" "length bytes \<le> BUFLEN"
  shows "read_reply cfg e w
         = Inr (0, w\<lparr>stdout := stdout w @ concat (map fmt_02hhx bytes) @ ''  ''
                                @ ascii_view bytes @ [NL]\<rparr>)
       \<and> length (fmt_02hhx c) = 2
       \<and> set (fmt_02hhx c) \<subseteq> set ''0123456789abcdef''
       \<and> hex_value (fmt_02hhx c) = of_char c"
  using assms fmt_02hhx_props [of c]
  by (simp add: read_reply_def Let_def debug_show_reply_eq)

text \<open>The bytes \<open>0x41 0x0A\<close> are rendered as \<open>410a\<close>, two spaces and \<open>A.\<close>.\<close>

theorem debug_rendering_witness:
  "debug (config0\<lparr>debug := 1\<rparr>) \<noteq> 0
   \<and> length [CHR 0x41, CHR 0x0A] \<le> BUFLEN
   \<and> read_reply (config0\<lparr>debug := 1\<rparr>)
        \<lparr>poll_ret = 1, revents0 = 0, revents1 = POLLIN, read_ret = Some [CHR 0x41, CHR 0x0A],
          clock = \<lparr>tv_sec = 0, tv_nsec = 0\<rparr>\<rparr> (world0 [])
      = Inr (0, (world0 [])\<lparr>stdout := ''410a  A.'' @ [NL]\<rparr>)"
  using debug_rendering [of "config0\<lparr>debug := 1\<rparr>"
      "\<lparr>poll_ret = 1, revents0 = 0, revents1 = POLLIN, read_ret = Some [CHR 0x41, CHR 0x0A],
          clock = \<lparr>tv_sec = 0, tv_nsec = 0\<rparr>\<rparr>" "[CHR 0x41, CHR 0x0A]" "world0 []"]
  by (simp add: config0_def BUFLEN_def world0_def fmt_02hhx_def hexdigit_def ascii_view_def
      isprint_def)

subsection \<open>C9: embedded NUL bytes\<close>

text \<open>
  C9. For a chunk with a NUL byte in it, plain mode prints only the bytes before the
  first NUL, and annotate mode reports as the count the number of bytes that were read
  (and shows the same truncated string between the braces).
\<close>

theorem plain_truncates_annotate_counts:
  assumes "read_ret e = Some bytes" "length bytes \<le> BUFLEN" "NUL \<in> set bytes"
    "debug cfg = 0" "trace cfg = 0"
  shows "(annotate cfg = 0 \<longrightarrow>
           read_reply cfg e w
           = Inr (0, w\<lparr>stdout := stdout w @ takeWhile (\<lambda>c. c \<noteq> NUL) bytes\<rparr>))
       \<and> (annotate cfg \<noteq> 0 \<longrightarrow>
           read_reply cfg e w
           = Inr (0, w\<lparr>stdout := stdout w @ ''read '' @ fmt_2d (int (length bytes)) @ '' bytes {''
                        @ takeWhile (\<lambda>c. c \<noteq> NUL) bytes @ ''}'' @ [NL]\<rparr>))"
  using assms by (simp add: read_reply_def Let_def cstring_with_NUL)

text \<open>The chunk \<open>A NUL B\<close>: plain mode prints \<open>A\<close>, annotate mode counts 3 bytes.\<close>

theorem plain_truncates_annotate_counts_witness:
  "read_reply config0
        \<lparr>poll_ret = 1, revents0 = 0, revents1 = POLLIN, read_ret = Some [CHR ''A'', NUL, CHR ''B''],
          clock = \<lparr>tv_sec = 0, tv_nsec = 0\<rparr>\<rparr> (world0 [])
      = Inr (0, (world0 [])\<lparr>stdout := ''A''\<rparr>)
   \<and> read_reply (config0\<lparr>annotate := 1\<rparr>)
        \<lparr>poll_ret = 1, revents0 = 0, revents1 = POLLIN, read_ret = Some [CHR ''A'', NUL, CHR ''B''],
          clock = \<lparr>tv_sec = 0, tv_nsec = 0\<rparr>\<rparr> (world0 [])
      = Inr (0, (world0 [])\<lparr>stdout := ''read  3 bytes {A}'' @ [NL]\<rparr>)"
  using plain_truncates_annotate_counts [of 
      "\<lparr>poll_ret = 1, revents0 = 0, revents1 = POLLIN, read_ret = Some [CHR ''A'', NUL, CHR ''B''],
          clock = \<lparr>tv_sec = 0, tv_nsec = 0\<rparr>\<rparr>" "[CHR ''A'', NUL, CHR ''B'']" config0 "world0 []"]
    plain_truncates_annotate_counts [of 
      "\<lparr>poll_ret = 1, revents0 = 0, revents1 = POLLIN, read_ret = Some [CHR ''A'', NUL, CHR ''B''],
          clock = \<lparr>tv_sec = 0, tv_nsec = 0\<rparr>\<rparr>" "[CHR ''A'', NUL, CHR ''B'']" "config0\<lparr>annotate := 1\<rparr>" "world0 []"]
  by (simp add: config0_def BUFLEN_def world0_def NUL_def fmt_2d_3)

subsection \<open>C1: a read of nothing, a read that fails\<close>

text \<open>What \<^verbatim>\<open>read_reply\<close> prints for a read of 0 bytes, mode by mode.\<close>

lemma put_ascii_none: "put_ascii buf 0 0 out = out"
  by (subst put_ascii.simps) simp

lemma put_hex_none: "put_hex buf 0 0 out = out"
  by (subst put_hex.simps) simp

lemma fmt_2d_0: "fmt_2d 0 = '' 0''"
  by (simp add: fmt_2d_def fmt_d_def fmt_u.simps) code_simp

lemma read_reply_empty_debug:
  assumes "read_ret e = Some []" "debug cfg \<noteq> 0"
  shows "read_reply cfg e w = Inr (0, w\<lparr>stdout := stdout w @ ''  '' @ [NL]\<rparr>)"
  using assms
  by (simp add: read_reply_def Let_def debug_show_reply_def put_ascii_none put_hex_none)

lemma read_reply_empty_trace:
  assumes "read_ret e = Some []" "debug cfg = 0" "trace cfg \<noteq> 0"
  shows "read_reply cfg e w
         = Inr (0, w\<lparr>lastts := timestamp (clock e),
                     total := (if lastts w \<noteq> 0 then total w + (timestamp (clock e) - lastts w)
                               else total w),
                     stdout := stdout w
                       @ fmt_d (sint (if lastts w \<noteq> 0
                                      then total w + (timestamp (clock e) - lastts w)
                                      else total w)) @ '' ''
                       @ fmt_d (sint (if lastts w \<noteq> 0 then timestamp (clock e) - lastts w
                                      else 0)) @ '' ''
                       @ [NL]\<rparr>)"
  using assms
  by (simp add: read_reply_def Let_def trace_show_reply_def put_ascii_none)

lemma read_reply_empty_annotate:
  assumes "read_ret e = Some []" "debug cfg = 0" "trace cfg = 0" "annotate cfg \<noteq> 0"
  shows "read_reply cfg e w
         = Inr (0, w\<lparr>stdout := stdout w @ ''read  0 bytes {}'' @ [NL]\<rparr>)"
  using assms
  by (simp add: read_reply_def Let_def cstring_zeroes BUFLEN_def fmt_2d_0)

lemma read_reply_empty_plain:
  assumes "read_ret e = Some []" "debug cfg = 0" "trace cfg = 0" "annotate cfg = 0"
  shows "read_reply cfg e w = Inr (0, w)"
  using assms
  by (simp add: read_reply_def Let_def cstring_zeroes BUFLEN_def)

text \<open>
  C1 says that a read of 0 bytes or a failing read on the serial descriptor ends the
  process with a non-zero status. The code treats only a negative count as an error, and
  \<^verbatim>\<open>main\<close> drops the value of \<^verbatim>\<open>read_reply\<close>. As amended: on an event where the
  serial descriptor is ready, a read of 0 bytes is no error; \<^verbatim>\<open>read_reply\<close> returns 0,
  prints no diagnostic and renders the empty chunk in the active mode, and the loop goes on
  with the next event. The rendering is, in debug mode, two spaces and a newline; in
  trace mode the total, the diff and a newline, with the trace clock moved on; in annotate
  mode the line \<open>read  0 bytes {}\<close>; in plain mode nothing at all. A failing read makes
  \<^verbatim>\<open>read_reply\<close> print the diagnostic \<open>read\<close> and return \<open>-1\<close> without rendering
  anything.
\<close>

theorem zero_read_continues_failed_read_reported:
  assumes "serial_ready e"
  shows "(read_ret e = Some [] \<longrightarrow>
           (\<exists>w1. read_reply cfg e w = Inr (0, w1) \<and> stderr w1 = stderr w
                 \<and> main_loop cfg (e # es) w = main_loop cfg es w1)
           \<and> (debug cfg \<noteq> 0 \<longrightarrow>
                read_reply cfg e w = Inr (0, w\<lparr>stdout := stdout w @ ''  '' @ [NL]\<rparr>))
           \<and> (debug cfg = 0 \<and> trace cfg \<noteq> 0 \<longrightarrow>
                read_reply cfg e w
                = Inr (0, w\<lparr>lastts := timestamp (clock e),
                     total := (if lastts w \<noteq> 0 then total w + (timestamp (clock e) - lastts w)
                               else total w),
                     stdout := stdout w
                       @ fmt_d (sint (if lastts w \<noteq> 0
                                      then total w + (timestamp (clock e) - lastts w)
                                      else total w)) @ '' ''
                       @ fmt_d (sint (if lastts w \<noteq> 0 then timestamp (clock e) - lastts w
                                      else 0)) @ '' ''
                       @ [NL]\<rparr>))
           \<and> (debug cfg = 0 \<and> trace cfg = 0 \<and> annotate cfg \<noteq> 0 \<longrightarrow>
                read_reply cfg e w
                = Inr (0, w\<lparr>stdout := stdout w @ ''read  0 bytes {}'' @ [NL]\<rparr>))
           \<and> (debug cfg = 0 \<and> trace cfg = 0 \<and> annotate cfg = 0 \<longrightarrow>
                read_reply cfg e w = Inr (0, w)))
       \<and> (read_ret e = None \<longrightarrow>
           read_reply cfg e w = Inr (- 1, w\<lparr>stderr := stderr w @ [''read'']\<rparr>))"
proof (intro conjI impI)
  assume r: "read_ret e = Some []"
  then obtain w1 where w1: "read_reply cfg e w = Inr (0, w1)"
    using read_reply_empty by blast
  have "stderr w1 = stderr w"
    using w1 r by (auto simp add: read_reply_def Let_def cstring_zeroes BUFLEN_def
        trace_show_reply_def split: if_splits)
  moreover have "main_loop cfg (e # es) w = main_loop cfg es w1"
    using w1 main_body_serial [OF assms, of cfg w] by simp
  ultimately show "\<exists>w1. read_reply cfg e w = Inr (0, w1) \<and> stderr w1 = stderr w
                 \<and> main_loop cfg (e # es) w = main_loop cfg es w1"
    using w1 by blast
next
  assume "read_ret e = None"
  then show "read_reply cfg e w = Inr (- 1, w\<lparr>stderr := stderr w @ [''read'']\<rparr>)"
    by (rule read_reply_fail)
qed (simp_all add: read_reply_empty_debug read_reply_empty_trace read_reply_empty_annotate
    read_reply_empty_plain)

text \<open>
  An event with \<^verbatim>\<open>POLLIN\<close> on the serial descriptor: the read of 0 bytes in the four
  modes, and the failing read.
\<close>

theorem zero_read_continues_failed_read_reported_witness:
  "serial_ready \<lparr>poll_ret = 1, revents0 = 0, revents1 = POLLIN, read_ret = Some [],
                  clock = \<lparr>tv_sec = 1, tv_nsec = 0\<rparr>\<rparr>
   \<and> read_reply config0 \<lparr>poll_ret = 1, revents0 = 0, revents1 = POLLIN, read_ret = Some [],
                  clock = \<lparr>tv_sec = 1, tv_nsec = 0\<rparr>\<rparr> (world0 []) = Inr (0, world0 [])
   \<and> main_loop config0 [\<lparr>poll_ret = 1, revents0 = 0, revents1 = POLLIN, read_ret = Some [],
                  clock = \<lparr>tv_sec = 1, tv_nsec = 0\<rparr>\<rparr>] (world0 []) = (Blocked, world0 [])
   \<and> read_reply (config0\<lparr>debug := 1\<rparr>)
        \<lparr>poll_ret = 1, revents0 = 0, revents1 = POLLIN, read_ret = Some [],
                  clock = \<lparr>tv_sec = 1, tv_nsec = 0\<rparr>\<rparr> (world0 [])
       = Inr (0, (world0 [])\<lparr>stdout := ''  '' @ [NL]\<rparr>)
   \<and> read_reply (config0\<lparr>trace := 1\<rparr>)
        \<lparr>poll_ret = 1, revents0 = 0, revents1 = POLLIN, read_ret = Some [],
                  clock = \<lparr>tv_sec = 1, tv_nsec = 0\<rparr>\<rparr> (world0 [])
       = Inr (0, (world0 [])\<lparr>lastts := 1000, stdout := ''0 0 '' @ [NL]\<rparr>)
   \<and> read_reply (config0\<lparr>annotate := 1\<rparr>)
        \<lparr>poll_ret = 1, revents0 = 0, revents1 = POLLIN, read_ret = Some [],
                  clock = \<lparr>tv_sec = 1, tv_nsec = 0\<rparr>\<rparr> (world0 [])
       = Inr (0, (world0 [])\<lparr>stdout := ''read  0 bytes {}'' @ [NL]\<rparr>)
   \<and> serial_ready \<lparr>poll_ret = 1, revents0 = 0, revents1 = POLLIN, read_ret = None,
                  clock = \<lparr>tv_sec = 1, tv_nsec = 0\<rparr>\<rparr>
   \<and> read_reply config0 \<lparr>poll_ret = 1, revents0 = 0, revents1 = POLLIN, read_ret = None,
                  clock = \<lparr>tv_sec = 1, tv_nsec = 0\<rparr>\<rparr> (world0 [])
       = Inr (- 1, (world0 [])\<lparr>stderr := [''read'']\<rparr>)"
proof -
  let ?e0 = "\<lparr>poll_ret = 1, revents0 = 0, revents1 = POLLIN, read_ret = Some [],
                  clock = \<lparr>tv_sec = 1, tv_nsec = 0\<rparr>\<rparr>"
  let ?e1 = "\<lparr>poll_ret = 1, revents0 = 0, revents1 = POLLIN, read_ret = None,
                  clock = \<lparr>tv_sec = 1, tv_nsec = 0\<rparr>\<rparr>"
  have r0: "serial_ready ?e0" and r1: "serial_ready ?e1"
    by (simp_all add: serial_ready_def POLLIN_def POLLPRI_def POLLERR_def POLLHUP_def)
  have f0: "fmt_d 0 = ''0''" by (simp add: fmt_d_def fmt_u.simps) code_simp
  from zero_read_continues_failed_read_reported [OF r0, of config0 "world0 []" "[]"]
  have a: "read_reply config0 ?e0 (world0 []) = Inr (0, world0 [])"
    "main_loop config0 [?e0] (world0 []) = (Blocked, world0 [])"
    by (auto simp add: config0_def)
  from zero_read_continues_failed_read_reported [OF r0, of "config0\<lparr>debug := 1\<rparr>" "world0 []" "[]"]
  have b: "read_reply (config0\<lparr>debug := 1\<rparr>) ?e0 (world0 [])
           = Inr (0, (world0 [])\<lparr>stdout := ''  '' @ [NL]\<rparr>)"
    by (simp add: config0_def world0_def)
  from zero_read_continues_failed_read_reported [OF r0, of "config0\<lparr>trace := 1\<rparr>" "world0 []" "[]"]
  have c: "read_reply (config0\<lparr>trace := 1\<rparr>) ?e0 (world0 [])
           = Inr (0, (world0 [])\<lparr>lastts := 1000, stdout := ''0 0 '' @ [NL]\<rparr>)"
    by (simp add: config0_def world0_def timestamp_def f0)
  from zero_read_continues_failed_read_reported [OF r0, of "config0\<lparr>annotate := 1\<rparr>" "world0 []" "[]"]
  have d: "read_reply (config0\<lparr>annotate := 1\<rparr>) ?e0 (world0 [])
           = Inr (0, (world0 [])\<lparr>stdout := ''read  0 bytes {}'' @ [NL]\<rparr>)"
    by (simp add: config0_def world0_def)
  from zero_read_continues_failed_read_reported [OF r1, of config0 "world0 []" "[]"]
  have g: "read_reply config0 ?e1 (world0 []) = Inr (- 1, (world0 [])\<lparr>stderr := [''read'']\<rparr>)"
    by (simp add: world0_def)
  show ?thesis using r0 r1 a b c d g by simp
qed

text \<open>
  The claim as stated fails: after a read of 0 bytes the process is still there, renders
  the next chunk and waits in \<^verbatim>\<open>poll\<close> again.
\<close>

theorem zero_read_not_fatal_counterexample:
  "main_loop config0
     [\<lparr>poll_ret = 1, revents0 = 0, revents1 = POLLIN, read_ret = Some [],
        clock = \<lparr>tv_sec = 1, tv_nsec = 0\<rparr>\<rparr>,
      \<lparr>poll_ret = 1, revents0 = 0, revents1 = POLLIN, read_ret = Some ''ok'',
        clock = \<lparr>tv_sec = 2, tv_nsec = 0\<rparr>\<rparr>]
     (world0 [])
   = (Blocked, (world0 [])\<lparr>stdout := ''ok''\<rparr>)"
  by (simp add: main_body_def main_serial_def read_reply_def config0_def POLLIN_def POLLPRI_def
      POLLERR_def POLLHUP_def BUFLEN_def cstring_def NUL_def world0_def)

subsection \<open>C4: remapping the newline of a console line\<close>

text \<open>
  C4, as amended. For every console line that ends in a newline, holds no NUL byte and is
  read whole by \<^verbatim>\<open>fgets\<close> (at most \<open>BUFLEN - 1\<close> bytes): mode 0 writes the line
  unchanged, mode 1 writes it with a carriage return in place of the newline, and mode 2
  writes it with a carriage return and a newline in place of the newline, provided that the
  line is at most \<open>BUFLEN - 2\<close> bytes long.
\<close>

theorem newline_remapping:
  assumes "NL \<notin> set s" "NUL \<notin> set s" "length (s @ [NL]) < BUFLEN" "stdin w = s @ NL # rest"
  shows "(nlmap cfg = 0 \<longrightarrow>
            main_console cfg w = (Continue, w\<lparr>stdin := rest, wire := wire w @ [s @ [NL]]\<rparr>))
       \<and> (nlmap cfg = 1 \<longrightarrow>
            main_console cfg w = (Continue, w\<lparr>stdin := rest, wire := wire w @ [s @ [CR]]\<rparr>))
       \<and> (nlmap cfg = 2 \<and> length (s @ [NL]) < BUFLEN - 1 \<longrightarrow>
            main_console cfg w = (Continue, w\<lparr>stdin := rest, wire := wire w @ [s @ [CR, NL]]\<rparr>))"
proof (intro conjI impI)
  have len: "length s + 1 < BUFLEN" using assms(3) by simp
  show "main_console cfg w = (Continue, w\<lparr>stdin := rest, wire := wire w @ [s @ [NL]]\<rparr>)"
    if "nlmap cfg = 0"
    using console_line_0 [OF assms(1,2) len that assms(4)] .
  show "main_console cfg w = (Continue, w\<lparr>stdin := rest, wire := wire w @ [s @ [CR]]\<rparr>)"
    if "nlmap cfg = 1"
    using console_line_1 [OF assms(1,2) len that assms(4)] .
  show "main_console cfg w = (Continue, w\<lparr>stdin := rest, wire := wire w @ [s @ [CR, NL]]\<rparr>)"
    if "nlmap cfg = 2 \<and> length (s @ [NL]) < BUFLEN - 1"
  proof -
    have "length s + 2 < BUFLEN" using that by (simp add: BUFLEN_def)
    then show ?thesis
      using console_line_2 [OF assms(1,2) _ _ assms(4)] that by simp
  qed
qed

text \<open>The line \<open>hello\<close> in the three modes.\<close>

theorem newline_remapping_witness:
  "main_console config0 (world0 (''hello'' @ [NL]))
     = (Continue, (world0 [])\<lparr>wire := [''hello'' @ [NL]]\<rparr>)
   \<and> main_console (config0\<lparr>nlmap := 1\<rparr>) (world0 (''hello'' @ [NL]))
     = (Continue, (world0 [])\<lparr>wire := [''hello'' @ [CR]]\<rparr>)
   \<and> main_console (config0\<lparr>nlmap := 2\<rparr>) (world0 (''hello'' @ [NL]))
     = (Continue, (world0 [])\<lparr>wire := [''hello'' @ [CR, NL]]\<rparr>)"
  using newline_remapping [of "''hello''" "world0 (''hello'' @ [NL])" "[]" config0]
    newline_remapping [of "''hello''" "world0 (''hello'' @ [NL])" "[]" "config0\<lparr>nlmap := 1\<rparr>"]
    newline_remapping [of "''hello''" "world0 (''hello'' @ [NL])" "[]" "config0\<lparr>nlmap := 2\<rparr>"]
  by (simp add: NL_def NUL_def BUFLEN_def config0_def world0_def)

text \<open>
  The claim as stated fails on a line with a NUL byte, of which mode 0 writes only the
  bytes before the NUL, and on a line of \<open>BUFLEN - 1\<close> bytes in mode 2, where the appended
  newline takes the place of the terminating NUL and \<^verbatim>\<open>strlen\<close> runs off the buffer.
\<close>

theorem newline_remapping_counterexample:
  "main_console config0 (world0 ([CHR ''a'', NUL, CHR ''b''] @ [NL]))
     = (Continue, (world0 [])\<lparr>wire := [''a'']\<rparr>)
   \<and> [''a''] \<noteq> [[CHR ''a'', NUL, CHR ''b''] @ [NL]]
   \<and> length (replicate 1022 (CHR ''a'') @ [NL]) < BUFLEN
   \<and> main_console (config0\<lparr>nlmap := 2\<rparr>) (world0 (replicate 1022 (CHR ''a'') @ [NL]))
     = (Crash Read_out_of_bounds, world0 [])"
proof -
  have "fgets (replicate BUFLEN NUL) BUFLEN ([CHR ''a'', NUL, CHR ''b''] @ NL # [])
         = Some ([CHR ''a'', NUL, CHR ''b''] @ [NL] @ NUL # replicate (BUFLEN - length [CHR ''a'', NUL, CHR ''b''] - 2) NUL, [])"
    by (rule fgets_newline) (simp_all add: NL_def NUL_def BUFLEN_def)
  then have 1: "main_console config0 (world0 ([CHR ''a'', NUL, CHR ''b''] @ [NL]))
     = (Continue, (world0 [])\<lparr>wire := [''a'']\<rparr>)"
    by (simp add: main_console_def world0_def config0_def nlmap_0 strlen_def NUL_def)
  have 2: "main_console (config0\<lparr>nlmap := 2\<rparr>) (world0 (replicate 1022 (CHR ''a'') @ [NL]))
     = (Crash Read_out_of_bounds, world0 [])"
    using console_line_2_full [of "replicate 1022 (CHR ''a'')" "config0\<lparr>nlmap := 2\<rparr>"
        "world0 (replicate 1022 (CHR ''a'') @ [NL])" "[]"]
    by (simp add: NL_def NUL_def BUFLEN_def config0_def world0_def)
  show ?thesis using 1 2 by (simp add: BUFLEN_def)
qed

subsection \<open>C3: a line that fills the buffer\<close>

text \<open>
  C3 says that for a line that fills the buffer without a newline, mode 2 stores outside
  the buffer. As amended: \<^verbatim>\<open>fgets\<close> reads at most \<open>BUFLEN - 1\<close> bytes, so for such a
  line (without NUL bytes) both stores of mode 2 are inside the buffer, at the indices
  \<open>BUFLEN - 2\<close> and \<open>BUFLEN - 1\<close>; the second one overwrites the terminating NUL, the
  buffer holds no NUL any more, and the \<^verbatim>\<open>strlen\<close> of the following \<^verbatim>\<open>write\<close> reads
  beyond the buffer.
\<close>

theorem full_line_remap_in_bounds:
  assumes "NL \<notin> set s" "NUL \<notin> set s" "length s = BUFLEN - 1" "nlmap cfg = 2"
    "stdin w = s @ rest"
  shows "fgets (replicate BUFLEN NUL) BUFLEN (stdin w) = Some (s @ [NUL], rest)
       \<and> main_nlmap 2 (s @ [NUL]) = Inr (butlast s @ [CR, NL])
       \<and> \<not> write_fault (main_nlmap 2 (s @ [NUL]))
       \<and> length (butlast s @ [CR, NL]) = BUFLEN
       \<and> strlen (butlast s @ [CR, NL]) = None
       \<and> main_console cfg w = (Crash Read_out_of_bounds, w\<lparr>stdin := rest\<rparr>)"
proof -
  have "s \<noteq> []" using assms(3) by (auto simp add: BUFLEN_def)
  then obtain b x where sx: "s = b @ [x]" by (cases s rule: rev_cases) auto
  have a: "NL \<notin> set b" "NUL \<notin> set b" and x: "x \<noteq> NL" "x \<noteq> NUL"
    using assms(1,2) sx by auto
  have l: "length b + 2 = BUFLEN" using assms(3) sx by (simp add: BUFLEN_def)
  have w: "stdin w = b @ x # rest" using assms(5) sx by simp
  note f = console_full_2 [OF a l assms(4) w x]
  show ?thesis
    using f l unfolding sx by (simp add: write_fault_def)
qed

lemma replicate_snoc: "replicate (Suc n) x = replicate n x @ [x]"
  by (simp add: replicate_append_same)

lemma butlast_replicate_Suc: "butlast (replicate (Suc n) x) = replicate n x"
  by (simp only: replicate_snoc butlast_snoc)

lemma replicate_1023: "replicate 1023 x = replicate 1022 x @ [x]"
  using replicate_snoc [of 1022 x] by simp

text \<open>A line of 1023 letters: no store outside, then the read beyond the buffer.\<close>

theorem full_line_remap_in_bounds_witness:
  "length (replicate 1023 (CHR ''a'')) = BUFLEN - 1
   \<and> main_nlmap 2 (replicate 1023 (CHR ''a'') @ [NUL]) = Inr (replicate 1022 (CHR ''a'') @ [CR, NL])
   \<and> main_console (config0\<lparr>nlmap := 2\<rparr>) (world0 (replicate 1023 (CHR ''a'')))
       = (Crash Read_out_of_bounds, world0 [])"
proof -
  have b: "butlast (replicate 1023 (CHR ''a'')) = replicate 1022 (CHR ''a'')"
    using butlast_replicate_Suc [of 1022 "CHR ''a''"] by simp
  show ?thesis
    using full_line_remap_in_bounds [of "replicate 1023 (CHR ''a'')" "config0\<lparr>nlmap := 2\<rparr>"
        "world0 (replicate 1023 (CHR ''a''))" "[]"]
    by (simp add: NL_def NUL_def BUFLEN_def config0_def world0_def b)
qed

text \<open>
  Whatever the console delivers, the store at \<^verbatim>\<open>buf[strlen(buf)]\<close>, one position past
  the end of the line, is inside the buffer. The only store of mode 2 that can leave the
  buffer is the first one, at \<^verbatim>\<open>buf[strlen(buf)-1]\<close>, when the line starts with a NUL
  byte and the index wraps around.
\<close>

lemma read_line_length: "length (fst (read_line n inp)) \<le> n"
  by (induction n inp rule: read_line.induct) (auto split: prod.splits)

lemma fgets_buffer:
  assumes "fgets (replicate BUFLEN NUL) BUFLEN inp = Some (buf, rest)"
  shows "length buf = BUFLEN"
proof -
  obtain l r where lr: "read_line (BUFLEN - 1) inp = (l, r)"
    by (cases "read_line (BUFLEN - 1) inp")
  have "length l \<le> BUFLEN - 1" using read_line_length [of "BUFLEN - 1" inp] lr by simp
  moreover have "buf = l @ [NUL] @ drop (length l + 1) (replicate BUFLEN NUL)"
    using assms lr by (simp add: fgets_def split: if_splits)
  ultimately show ?thesis by (simp add: BUFLEN_def)
qed

lemma strlen_split:
  assumes "strlen buf = Some k"
  shows "\<exists>l zs. buf = l @ NUL # zs \<and> NUL \<notin> set l \<and> length l = k"
proof -
  have n: "NUL \<in> set buf" and k: "k = length (takeWhile (\<lambda>c. c \<noteq> NUL) buf)"
    using assms by (simp_all add: strlen_def split: if_splits)
  obtain l zs where s: "buf = l @ NUL # zs" "NUL \<notin> set l"
    using split_list_first [OF n] by blast
  then have "takeWhile (\<lambda>c. c \<noteq> NUL) buf = l" by (simp add: takeWhile_terminated)
  then show ?thesis using s k by auto
qed

lemma nlmap_2_empty:
  assumes "length (NUL # zs) \<le> BUFLEN"
  shows "main_nlmap 2 (NUL # zs) = Inl (Write_out_of_bounds (2 ^ 64 - 1))"
proof -
  have "strlen ([] @ NUL # zs) = Some (length ([] :: string))"
    by (rule strlen_terminated) simp
  then have "strlen (NUL # zs) = Some 0" by simp
  moreover have "\<not> (2 ^ 64 - 1 :: nat) < length (NUL # zs)"
    using assms by (simp add: BUFLEN_def)
  ultimately show ?thesis
    by (simp add: main_nlmap_def store_def size_pred_0 del: length_Cons list.size)
qed

lemma nlmap_2_no_fault_past_end:
  assumes "length buf \<le> BUFLEN" "strlen buf = Some k"
  shows "main_nlmap 2 buf \<noteq> Inl (Write_out_of_bounds k)"
proof -
  obtain l zs where s: "buf = l @ NUL # zs" "NUL \<notin> set l" "length l = k"
    using strlen_split [OF assms(2)] by blast
  show ?thesis
  proof (cases l rule: rev_cases)
    case Nil
    then have "main_nlmap 2 buf = Inl (Write_out_of_bounds (2 ^ 64 - 1))"
      using nlmap_2_empty [of zs] assms(1) s(1) by simp
    moreover have "k = 0" using Nil s(3) by simp
    ultimately show ?thesis by simp
  next
    case (snoc b x)
    have "NUL \<notin> set b" "x \<noteq> NUL" using s(2) snoc by auto
    moreover have "length b + 1 < BUFLEN" using assms(1) s(1) snoc by simp
    ultimately have "main_nlmap 2 (b @ [x] @ NUL # zs) = Inr (b @ [CR] @ NL # zs)"
      by (rule nlmap_2)
    then show ?thesis using s(1) snoc by simp
  qed
qed

text \<open>
  The claim as stated fails: on the line of 1023 letters the remapping makes no store
  out of bounds, and on no input at all is there a store out of bounds at the position
  past the end of the line.
\<close>

theorem full_line_remap_counterexample:
  "fgets (replicate BUFLEN NUL) BUFLEN (replicate 1023 (CHR ''a''))
     = Some (replicate 1023 (CHR ''a'') @ [NUL], [])
   \<and> \<not> write_fault (main_nlmap 2 (replicate 1023 (CHR ''a'') @ [NUL]))
   \<and> \<not> (\<exists>inp buf rest k. fgets (replicate BUFLEN NUL) BUFLEN inp = Some (buf, rest)
           \<and> strlen buf = Some k \<and> main_nlmap 2 buf = Inl (Write_out_of_bounds k))"
proof -
  note r = replicate_1023 [of "CHR ''a''"]
  have "fgets (replicate BUFLEN NUL) BUFLEN (stdin (world0 (replicate 1023 (CHR ''a''))))
          = Some (replicate 1022 (CHR ''a'') @ [CHR ''a'', NUL], [])"
    and "main_nlmap 2 (replicate 1022 (CHR ''a'') @ [CHR ''a'', NUL])
          = Inr (replicate 1022 (CHR ''a'') @ [CR, NL])"
    using console_full_2 [of "replicate 1022 (CHR ''a'')" "config0\<lparr>nlmap := 2\<rparr>"
        "world0 (replicate 1023 (CHR ''a''))" "CHR ''a''" "[]"] r
    by (simp_all add: NL_def NUL_def BUFLEN_def config0_def world0_def)
  then have "fgets (replicate BUFLEN NUL) BUFLEN (replicate 1023 (CHR ''a''))
     = Some (replicate 1023 (CHR ''a'') @ [NUL], [])
   \<and> \<not> write_fault (main_nlmap 2 (replicate 1023 (CHR ''a'') @ [NUL]))"
    by (simp add: r write_fault_def world0_def)
  moreover have "\<not> (\<exists>inp buf rest k. fgets (replicate BUFLEN NUL) BUFLEN inp = Some (buf, rest)
           \<and> strlen buf = Some k \<and> main_nlmap 2 buf = Inl (Write_out_of_bounds k))"
    using nlmap_2_no_fault_past_end fgets_buffer by (metis order_refl)
  ultimately show ?thesis by blast
qed

subsection \<open>C7: the baud rate\<close>

text \<open>What the loop leaves alone: the opened paths and the line attributes.\<close>

lemma read_reply_keeps:
  "read_reply cfg e w = Inr (r, w1) \<Longrightarrow> opened w1 = opened w \<and> tty w1 = tty w"
  by (auto simp add: read_reply_def Let_def trace_show_reply_def
      split: option.splits if_splits)

lemma main_serial_keeps:
  "main_serial cfg e w = (fl, w1) \<Longrightarrow> opened w1 = opened w \<and> tty w1 = tty w"
  by (auto simp add: main_serial_def split: if_splits sum.splits dest: read_reply_keeps)

lemma main_console_keeps:
  "main_console cfg w = (fl, w1) \<Longrightarrow> opened w1 = opened w \<and> tty w1 = tty w"
  by (auto simp add: main_console_def split: option.splits sum.splits)

lemma main_body_keeps:
  "main_body cfg e w = (fl, w1) \<Longrightarrow> opened w1 = opened w \<and> tty w1 = tty w"
proof -
  assume b: "main_body cfg e w = (fl, w1)"
  obtain f2 w2 where c: "main_console cfg w = (f2, w2)" by (cases "main_console cfg w")
  obtain f3 w3 where s: "main_serial cfg e w2 = (f3, w3)" by (cases "main_serial cfg e w2")
  obtain f4 w4 where t: "main_serial cfg e w = (f4, w4)" by (cases "main_serial cfg e w")
  note kc = main_console_keeps [OF c] and ks = main_serial_keeps [OF s]
    and kt = main_serial_keeps [OF t]
  show ?thesis
    using b c s t kc ks kt unfolding main_body_def
    by (auto split: if_splits flow.splits)
qed

lemma main_loop_keeps:
  "main_loop cfg evs w = (out, w1) \<Longrightarrow> opened w1 = opened w \<and> tty w1 = tty w"
proof (induction evs arbitrary: w)
  case Nil
  then show ?case by simp
next
  case (Cons e evs)
  obtain fl w2 where b: "main_body cfg e w = (fl, w2)" by (cases "main_body cfg e w")
  note k = main_body_keeps [OF b]
  show ?case
  proof (cases fl)
    case Continue
    then have "main_loop cfg evs w2 = (out, w1)" using Cons.prems b by simp
    then show ?thesis using Cons.IH k by simp
  qed (use Cons.prems b k in auto)
qed

lemma main_baud_supported:
  "(main_baud n = None) = (n \<notin> supported_baud)"
  by (simp add: main_baud_def supported_baud_def)

lemma usage_keeps: "opened (usage p w) = opened w"
  by (simp add: usage_def)

lemma getopt_9601:
  "main_getopt (progname_of ''./slush'') [(CHR ''b'', ''9601'')] config0 (world0 [])
   = Inr (config0\<lparr>bps := 9601\<rparr>)"
  by code_simp

lemma getopt_9600:
  "main_getopt (progname_of ''./slush'') [(CHR ''b'', ''9600''), (CHR ''p'', ''/dev/ttyUSB0'')]
     config0 (world0 [])
   = Inr (config0\<lparr>bps := 9600, device := Some ''/dev/ttyUSB0''\<rparr>)"
  by code_simp

text \<open>
  C7. Let the option loop run to its end (no \<^verbatim>\<open>-h\<close>, no unknown option) with the rate
  \<open>bps\<close>. If \<open>bps\<close> is not one of 1200, 1800, 2400, 4800, 9600, 19200, 38400, 57600 and
  115200, \<^verbatim>\<open>main\<close> prints the usage text and returns \<open>-1\<close>, a non-zero exit status, and
  no device has been opened. If it is one of them, the switch maps it to the constant of
  the platform and \<^verbatim>\<open>main\<close> goes on: the device given with \<^verbatim>\<open>-p\<close> is opened, and
  when that succeeds its attributes are set with that constant.
\<close>

theorem baud_switch:
  assumes "main_getopt (progname_of prog) optv config0 w = Inr cfg"
  shows "(bps cfg \<notin> supported_baud \<longrightarrow>
            main open_ret prog optv evs w = (Exit (- 1), usage (progname_of prog) w)
            \<and> exit_status (- 1) \<noteq> 0
            \<and> opened (usage (progname_of prog) w) = opened w)
       \<and> (bps cfg \<in> supported_baud \<and> device cfg = Some name \<longrightarrow>
            (\<exists>baud. main_baud (bps cfg) = Some baud
               \<and> opened (snd (main open_ret prog optv evs w)) = opened w @ [name]
               \<and> (0 \<le> open_ret name \<longrightarrow>
                    tty (snd (main open_ret prog optv evs w))
                    = Some (nterm cfg baud (icrnl cfg) (hwfc cfg)))))
       \<and> main_baud 1200 = Some B1200 \<and> main_baud 1800 = Some B1800
       \<and> main_baud 2400 = Some B2400 \<and> main_baud 4800 = Some B4800
       \<and> main_baud 9600 = Some B9600 \<and> main_baud 19200 = Some B19200
       \<and> main_baud 38400 = Some B38400 \<and> main_baud 57600 = Some B57600
       \<and> main_baud 115200 = Some B115200"
proof (intro conjI impI)
  show "main open_ret prog optv evs w = (Exit (- 1), usage (progname_of prog) w)"
    if "bps cfg \<notin> supported_baud"
    using that assms main_baud_supported [of "bps cfg"]
    by (simp add: main_def main_session_def)
  show "exit_status (- 1) \<noteq> 0" by (simp add: exit_status_def)
  show "opened (usage (progname_of prog) w) = opened w" by (rule usage_keeps)
  show "\<exists>baud. main_baud (bps cfg) = Some baud
               \<and> opened (snd (main open_ret prog optv evs w)) = opened w @ [name]
               \<and> (0 \<le> open_ret name \<longrightarrow>
                    tty (snd (main open_ret prog optv evs w))
                    = Some (nterm cfg baud (icrnl cfg) (hwfc cfg)))"
    if h: "bps cfg \<in> supported_baud \<and> device cfg = Some name"
  proof -
    obtain baud where baud: "main_baud (bps cfg) = Some baud"
      using h main_baud_supported [of "bps cfg"] by (cases "main_baud (bps cfg)") auto
    let ?o = "open_serial open_ret cfg name baud (icrnl cfg) (hwfc cfg) w"
    have m: "main open_ret prog optv evs w
             = (if fst ?o < 0 then (Exit (- 1), snd ?o) else main_loop cfg evs (snd ?o))"
      using assms baud h by (simp add: main_def main_session_def split: prod.splits)
    have o1: "opened (snd ?o) = opened w @ [name]"
      by (simp add: open_serial_def Let_def)
    have o2: "fst ?o = open_ret name" by (simp add: open_serial_def Let_def)
    have o3: "0 \<le> open_ret name \<Longrightarrow> tty (snd ?o) = Some (nterm cfg baud (icrnl cfg) (hwfc cfg))"
      by (simp add: open_serial_def Let_def)
    have k: "opened (snd (main_loop cfg evs (snd ?o))) = opened (snd ?o)
             \<and> tty (snd (main_loop cfg evs (snd ?o))) = tty (snd ?o)"
      using main_loop_keeps [of cfg evs "snd ?o"] by (cases "main_loop cfg evs (snd ?o)") simp
    show ?thesis
      using baud m o1 o2 o3 k by auto
  qed
qed (simp_all add: main_baud_def)

text \<open>The rate 9601 is rejected; with 9600 the device is opened and set up.\<close>

theorem baud_switch_witness:
  "main (\<lambda>p. 3) ''./slush'' [(CHR ''b'', ''9601'')] [] (world0 [])
     = (Exit (- 1), usage ''slush'' (world0 []))
   \<and> opened (snd (main (\<lambda>p. 3) ''./slush''
                 [(CHR ''b'', ''9600''), (CHR ''p'', ''/dev/ttyUSB0'')] [] (world0 [])))
     = [''/dev/ttyUSB0'']
   \<and> tty (snd (main (\<lambda>p. 3) ''./slush''
                 [(CHR ''b'', ''9600''), (CHR ''p'', ''/dev/ttyUSB0'')] [] (world0 [])))
     = Some (nterm (config0\<lparr>bps := 9600, device := Some ''/dev/ttyUSB0''\<rparr>) B9600 0 0)"
proof -
  have p: "progname_of ''./slush'' = ''slush''" by (simp add: progname_of_def)
  have a: "main (\<lambda>p. 3) ''./slush'' [(CHR ''b'', ''9601'')] [] (world0 [])
     = (Exit (- 1), usage ''slush'' (world0 []))"
    using baud_switch [OF getopt_9601, where open_ret = "\<lambda>p. 3" and evs = "[]"]
    by (simp add: p config0_def supported_baud_def)
  have b: "opened (snd (main (\<lambda>p. 3) ''./slush''
                 [(CHR ''b'', ''9600''), (CHR ''p'', ''/dev/ttyUSB0'')] [] (world0 [])))
     = [''/dev/ttyUSB0'']
   \<and> tty (snd (main (\<lambda>p. 3) ''./slush''
                 [(CHR ''b'', ''9600''), (CHR ''p'', ''/dev/ttyUSB0'')] [] (world0 [])))
     = Some (nterm (config0\<lparr>bps := 9600, device := Some ''/dev/ttyUSB0''\<rparr>) B9600 0 0)"
    using baud_switch [OF getopt_9600, where open_ret = "\<lambda>p. 3" and evs = "[]"
        and name = "''/dev/ttyUSB0''"]
    by (auto simp add: config0_def supported_baud_def world0_def)
  show ?thesis using a b by simp
qed

subsection \<open>C10: other values of the newline mapping\<close>
















subsection \<open>C5: the trace clock\<close>

text \<open>Milliseconds stay far below the sign bit, so the signed conversion prints them as they are.\<close>

lemma timestamp_bound: "unat (timestamp ts) < 2 ^ 45"
proof -
  have "unat (timestamp ts) = unat (tv_sec ts * 1000000000 + tv_nsec ts) div 1000000"
    by (simp add: timestamp_def unat_div)
  moreover have "unat (tv_sec ts * 1000000000 + tv_nsec ts) < 2 ^ 64"
    using unsigned_less [of "tv_sec ts * 1000000000 + tv_nsec ts"] by simp
  ultimately show ?thesis by simp
qed

lemma sint_small:
  assumes "unat (x :: 64 word) < 2 ^ 63"
  shows "sint x = int (unat x)"
proof -
  have u: "uint x = int (unat x)" by simp
  have "int (unat x) < 2 ^ 63"
    using assms of_nat_less_iff [of "unat x" "2 ^ 63", where ?'a = int] by simp
  moreover have "- (2 ^ 63) \<le> int (unat x)"
    by (rule order_trans [of _ 0]) simp_all
  ultimately have "signed_take_bit 63 (int (unat x)) = int (unat x)"
    by (intro signed_take_bit_int_eq_self)
  then show ?thesis
    by (simp add: sint_uint)
qed

lemma fmt_d_small: "unat (x :: 64 word) < 2 ^ 63 \<Longrightarrow> fmt_d (sint x) = fmt_u (unat x)"
  by (simp add: sint_small fmt_d_def)

lemma read_reply_trace:
  assumes "debug cfg = 0" "trace cfg \<noteq> 0" "read_ret e \<noteq> None"
  shows "read_reply cfg e w
         = Inr (0, trace_show_reply (received e @ replicate (BUFLEN - length (received e)) NUL)
                     (int (length (received e))) (clock e) w)"
  using assms by (auto simp add: read_reply_def received_def Let_def)

lemma trace_show_reply_first:
  assumes "lastts w = 0" "total w = 0"
  shows "trace_show_reply (bytes @ pad) (int (length bytes)) ts w
         = w\<lparr>lastts := timestamp ts, total := 0,
              stdout := stdout w @ fmt_u 0 @ '' '' @ fmt_u 0 @ '' '' @ ascii_view bytes @ [NL]\<rparr>"
  using assms by (simp add: trace_show_reply_def Let_def put_ascii_all fmt_d_def)

lemma total_later:
  assumes "unat (lastts w) \<le> unat (timestamp ts)" "unat (total w) \<le> unat (lastts w)"
  shows "unat (timestamp ts - lastts w) = unat (timestamp ts) - unat (lastts w)"
    and "unat (total w + (timestamp ts - lastts w))
         = unat (total w) + (unat (timestamp ts) - unat (lastts w))"
proof -
  have le: "lastts w \<le> timestamp ts" using assms(1) by (simp add: word_le_nat_alt)
  show d: "unat (timestamp ts - lastts w) = unat (timestamp ts) - unat (lastts w)"
    using le by (simp add: unat_sub)
  have b: "unat (timestamp ts) < 2 ^ 45" by (rule timestamp_bound)
  have "unat (total w) + unat (timestamp ts - lastts w) < 2 ^ 64"
    using d b assms by simp
  then have "unat (total w + (timestamp ts - lastts w))
                = unat (total w) + unat (timestamp ts - lastts w)"
    using unat_add_lem [of "total w" "timestamp ts - lastts w"] by simp
  then show "unat (total w + (timestamp ts - lastts w))
         = unat (total w) + (unat (timestamp ts) - unat (lastts w))"
    using d by simp
qed

lemma trace_show_reply_later:
  assumes "lastts w \<noteq> 0" "unat (lastts w) \<le> unat (timestamp ts)"
    "unat (total w) \<le> unat (lastts w)"
  shows "trace_show_reply (bytes @ pad) (int (length bytes)) ts w
         = w\<lparr>lastts := timestamp ts, total := total w + (timestamp ts - lastts w),
              stdout := stdout w
                @ fmt_u (unat (total w) + (unat (timestamp ts) - unat (lastts w))) @ '' ''
                @ fmt_u (unat (timestamp ts) - unat (lastts w)) @ '' ''
                @ ascii_view bytes @ [NL]\<rparr>"
proof -
  note t = total_later [OF assms(2,3)]
  have b: "unat (timestamp ts) < 2 ^ 45" by (rule timestamp_bound)
  have s1: "unat (total w + (timestamp ts - lastts w)) < 2 ^ 63"
    using t b assms(2,3) by simp
  have s2: "unat (timestamp ts - lastts w) < 2 ^ 63"
    using t b by simp
  show ?thesis
    using assms(1) fmt_d_small [OF s1] fmt_d_small [OF s2] t
    by (simp add: trace_show_reply_def Let_def put_ascii_all)
qed

lemma main_loop_trace_later:
  assumes "debug cfg = 0" "trace cfg \<noteq> 0"
  shows "list_all serial_data evs \<Longrightarrow> sorted (map millis evs) \<Longrightarrow> lastts w \<noteq> 0 \<Longrightarrow>
         list_all (\<lambda>e. unat (lastts w) \<le> millis e) evs \<Longrightarrow> unat (total w) \<le> unat (lastts w) \<Longrightarrow>
         \<exists>w1. main_loop cfg evs w = (Blocked, w1)
            \<and> stdout w1 = stdout w @ spec_trace (Some (unat (lastts w))) (unat (total w))
                                        (map (\<lambda>e. (millis e, received e)) evs)"
proof (induction evs arbitrary: w)
  case Nil
  then show ?case by simp
next
  case (Cons e evs)
  let ?pad = "replicate (BUFLEN - length (received e)) NUL"
  let ?w = "trace_show_reply (received e @ ?pad) (int (length (received e))) (clock e) w"
  have sd: "serial_ready e" "read_ret e \<noteq> None"
    using Cons.prems(1) by (simp_all add: serial_data_def)
  have le: "unat (lastts w) \<le> unat (timestamp (clock e))"
    using Cons.prems(4) by (simp add: millis_def)
  note st = trace_show_reply_later [OF Cons.prems(3) le Cons.prems(5),
      where bytes = "received e" and pad = ?pad]
  have body: "main_body cfg e w = (Continue, ?w)"
    using main_body_serial [OF sd(1), of cfg w] read_reply_trace [OF assms sd(2), of w]
    by simp
  have l: "lastts ?w = timestamp (clock e)"
    and t: "unat (total ?w) = unat (total w) + (millis e - unat (lastts w))"
    and o: "stdout ?w = stdout w
                @ fmt_u (unat (total w) + (millis e - unat (lastts w))) @ '' ''
                @ fmt_u (millis e - unat (lastts w)) @ '' ''
                @ ascii_view (received e) @ [NL]"
    using st total_later(2) [OF le Cons.prems(5)] by (simp_all add: millis_def)
  have nz: "lastts ?w \<noteq> 0"
    using l le Cons.prems(3) by (metis le_zero_eq unat_eq_zero)
  have a1: "list_all serial_data evs" using Cons.prems(1) by simp
  have a2: "sorted (map millis evs)" using Cons.prems(2) by simp
  have a4: "list_all (\<lambda>e'. unat (lastts ?w) \<le> millis e') evs"
    using Cons.prems(2) l by (simp add: list_all_iff millis_def)
  have a5: "unat (total ?w) \<le> unat (lastts ?w)"
    using t l le Cons.prems(5) by (simp add: millis_def)
  obtain w1 where w1: "main_loop cfg evs ?w = (Blocked, w1)"
    "stdout w1 = stdout ?w @ spec_trace (Some (unat (lastts ?w))) (unat (total ?w))
                                        (map (\<lambda>e. (millis e, received e)) evs)"
    using Cons.IH [OF a1 a2 nz a4 a5] by blast
  have "main_loop cfg (e # evs) w = (Blocked, w1)"
    using body w1(1) by simp
  moreover have "stdout w1 = stdout w @ spec_trace (Some (unat (lastts w))) (unat (total w))
                                        (map (\<lambda>e. (millis e, received e)) (e # evs))"
    using w1(2) o t l by (simp add: spec_diff_def millis_def)
  ultimately show ?case by blast
qed

lemma serial_event_data: "serial_data (serial_event ts bytes)"
  by (simp add: serial_data_def serial_ready_def serial_event_def POLLIN_def POLLPRI_def
      POLLERR_def POLLHUP_def)

lemma millis_examples:
  "millis (serial_event \<lparr>tv_sec = 5, tv_nsec = 0\<rparr> b) = 5000"
  "millis (serial_event \<lparr>tv_sec = 5, tv_nsec = 150000000\<rparr> b) = 5150"
  "millis (serial_event \<lparr>tv_sec = 5, tv_nsec = 200000000\<rparr> b) = 5200"
  "millis (serial_event \<lparr>tv_sec = 0, tv_nsec = 0\<rparr> b) = 0"
  "millis (serial_event \<lparr>tv_sec = 0, tv_nsec = 150000000\<rparr> b) = 150"
  by (simp_all add: millis_def serial_event_def timestamp_def)

lemma fmt_u_examples:
  "fmt_u 0 = ''0''" "fmt_u 50 = ''50''" "fmt_u 150 = ''150''" "fmt_u 200 = ''200''"
  by code_simp+

lemma received_examples:
  "received (serial_event ts ''A'') = ''A''"
  "received (serial_event ts ''B'') = ''B''"
  "received (serial_event ts ''C'') = ''C''"
  by (simp_all add: received_def serial_event_def BUFLEN_def)

lemma ascii_examples:
  "ascii_view ''A'' = ''A''" "ascii_view ''B'' = ''B''" "ascii_view ''C'' = ''C''"
  by (simp_all add: ascii_view_def isprint_def)

text \<open>
  C5, as amended. In trace mode, from the state at the start of the process, for every
  sequence of serial events with monotonic timestamps of which the first is not 0
  milliseconds: the first event renders \<open>diff = 0\<close> and \<open>total = 0\<close>; every later event
  renders as \<open>diff\<close> the milliseconds since the event before it and as \<open>total\<close> the sum
  of the diffs so far; every line is the total, a space, the diff, a space and the ASCII
  rendering of the bytes. The output of the loop is the output that the words of the
  specification describe.
\<close>

theorem trace_rendering:
  assumes "debug cfg = 0" "trace cfg \<noteq> 0" "lastts w = 0" "total w = 0"
    "list_all serial_data evs" "sorted (map millis evs)"
    "evs = [] \<or> millis (hd evs) \<noteq> 0"
  shows "\<exists>w1. main_loop cfg evs w = (Blocked, w1)
            \<and> stdout w1 = stdout w @ spec_trace None 0 (map (\<lambda>e. (millis e, received e)) evs)"
proof (cases evs)
  case Nil
  then show ?thesis by simp
next
  case (Cons e es)
  let ?pad = "replicate (BUFLEN - length (received e)) NUL"
  let ?w = "trace_show_reply (received e @ ?pad) (int (length (received e))) (clock e) w"
  have sd: "serial_ready e" "read_ret e \<noteq> None"
    using assms(5) Cons by (simp_all add: serial_data_def)
  have body: "main_body cfg e w = (Continue, ?w)"
    using main_body_serial [OF sd(1), of cfg w] read_reply_trace [OF assms(1,2) sd(2), of w]
    by simp
  note st = trace_show_reply_first [OF assms(3,4), where bytes = "received e" and pad = ?pad
      and ts = "clock e"]
  have nz: "lastts ?w \<noteq> 0"
    using st assms(7) Cons by (simp add: millis_def unat_eq_zero)
  have a1: "list_all serial_data es" using assms(5) Cons by simp
  have a2: "sorted (map millis es)" using assms(6) Cons by simp
  have a4: "list_all (\<lambda>e'. unat (lastts ?w) \<le> millis e') es"
    using assms(6) Cons st by (simp add: list_all_iff millis_def)
  have a5: "unat (total ?w) \<le> unat (lastts ?w)" using st by simp
  obtain w1 where w1: "main_loop cfg es ?w = (Blocked, w1)"
    "stdout w1 = stdout ?w @ spec_trace (Some (unat (lastts ?w))) (unat (total ?w))
                                        (map (\<lambda>e. (millis e, received e)) es)"
    using main_loop_trace_later [OF assms(1,2) a1 a2 nz a4 a5] by blast
  have "main_loop cfg evs w = (Blocked, w1)"
    using body w1(1) Cons by simp
  moreover have "stdout w1 = stdout w @ spec_trace None 0 (map (\<lambda>e. (millis e, received e)) evs)"
    using w1(2) st Cons by (simp add: spec_diff_def millis_def)
  ultimately show ?thesis by blast
qed

text \<open>Three events, the second 150 ms after the first, the third 50 ms after the second.\<close>

theorem trace_rendering_witness:
  "\<exists>w1. main_loop (config0\<lparr>trace := 1\<rparr>)
           [serial_event \<lparr>tv_sec = 5, tv_nsec = 0\<rparr> ''A'',
            serial_event \<lparr>tv_sec = 5, tv_nsec = 150000000\<rparr> ''B'',
            serial_event \<lparr>tv_sec = 5, tv_nsec = 200000000\<rparr> ''C'']
           (world0 []) = (Blocked, w1)
        \<and> stdout w1 = ''0 0 A'' @ [NL] @ ''150 150 B'' @ [NL] @ ''200 50 C'' @ [NL]"
  using trace_rendering [of "config0\<lparr>trace := 1\<rparr>" "world0 []"
          "[serial_event \<lparr>tv_sec = 5, tv_nsec = 0\<rparr> ''A'',
            serial_event \<lparr>tv_sec = 5, tv_nsec = 150000000\<rparr> ''B'',
            serial_event \<lparr>tv_sec = 5, tv_nsec = 200000000\<rparr> ''C'']"]
  by (simp add: config0_def world0_def serial_event_data millis_examples fmt_u_examples
      received_examples ascii_examples spec_diff_def)

text \<open>
  The claim as stated fails when the first timestamp is 0: \<^verbatim>\<open>lastts\<close> stays 0, which
  means that no event has been seen, and an event 150 ms later renders \<open>diff = 0\<close> again.
\<close>

theorem trace_rendering_counterexample:
  "sorted (map millis [serial_event \<lparr>tv_sec = 0, tv_nsec = 0\<rparr> ''A'',
                       serial_event \<lparr>tv_sec = 0, tv_nsec = 150000000\<rparr> ''B''])
   \<and> stdout (snd (main_loop (config0\<lparr>trace := 1\<rparr>)
           [serial_event \<lparr>tv_sec = 0, tv_nsec = 0\<rparr> ''A'',
            serial_event \<lparr>tv_sec = 0, tv_nsec = 150000000\<rparr> ''B'']
           (world0 [])))
     = ''0 0 A'' @ [NL] @ ''0 0 B'' @ [NL]
   \<and> spec_trace None 0
        (map (\<lambda>e. (millis e, received e))
           [serial_event \<lparr>tv_sec = 0, tv_nsec = 0\<rparr> ''A'',
            serial_event \<lparr>tv_sec = 0, tv_nsec = 150000000\<rparr> ''B''])
     = ''0 0 A'' @ [NL] @ ''150 150 B'' @ [NL]"
proof -
  let ?e0 = "serial_event \<lparr>tv_sec = 0, tv_nsec = 0\<rparr> ''A''"
  let ?e1 = "serial_event \<lparr>tv_sec = 0, tv_nsec = 150000000\<rparr> ''B''"
  let ?cfg = "config0\<lparr>trace := 1\<rparr>"
  have c: "debug ?cfg = 0" "trace ?cfg \<noteq> 0" by (simp_all add: config0_def)
  have r: "serial_ready ?e0" "serial_ready ?e1" "read_ret ?e0 \<noteq> None" "read_ret ?e1 \<noteq> None"
    using serial_event_data by (simp_all add: serial_data_def)
  have t: "timestamp (clock ?e0) = 0" "timestamp (clock ?e1) = 150"
    by (simp_all add: serial_event_def timestamp_def)
  have b0: "main_body ?cfg ?e0 (world0 [])
            = (Continue, (world0 [])\<lparr>stdout := ''0 0 A'' @ [NL]\<rparr>)"
    using main_body_serial [OF r(1), of ?cfg "world0 []"]
      read_reply_trace [OF c r(3), of "world0 []"]
      trace_show_reply_first [of "world0 []" "''A''" "replicate (BUFLEN - 1) NUL" "clock ?e0"]
    by (simp add: received_examples world0_def t fmt_u_examples ascii_examples)
  have b1: "main_body ?cfg ?e1 ((world0 [])\<lparr>stdout := ''0 0 A'' @ [NL]\<rparr>)
            = (Continue, (world0 [])\<lparr>lastts := 150,
                            stdout := ''0 0 A'' @ [NL] @ ''0 0 B'' @ [NL]\<rparr>)"
    using main_body_serial [OF r(2), of ?cfg "(world0 [])\<lparr>stdout := ''0 0 A'' @ [NL]\<rparr>"]
      read_reply_trace [OF c r(4), of "(world0 [])\<lparr>stdout := ''0 0 A'' @ [NL]\<rparr>"]
      trace_show_reply_first [of "(world0 [])\<lparr>stdout := ''0 0 A'' @ [NL]\<rparr>" "''B''"
        "replicate (BUFLEN - 1) NUL" "clock ?e1"]
    by (simp add: received_examples world0_def t fmt_u_examples ascii_examples)
  show ?thesis
    using b0 b1
    by (simp add: millis_examples received_examples fmt_u_examples ascii_examples spec_diff_def)
qed

end
